theory Spec2Isabelle
  imports Complex_Main "HOL-Library.Word"
begin

section \<open>The visual plugin: data model\<close>

text \<open>
  The development embeds \<^verbatim>\<open>src/plugin.py\<close>: the pipe protocol of the plugin
  (\<^verbatim>\<open>read_command\<close>, \<^verbatim>\<open>write_response\<close>), its handlers and the loop of
  \<^verbatim>\<open>main\<close>.

  A Python \<^verbatim>\<open>str\<close> is a sequence of code points, so it is a list of naturals;
  a \<^verbatim>\<open>bytes\<close> object is a list of 8-bit words. \<open>str\<close> and \<open>bytes_of\<close> turn an
  ASCII literal into the one and the other.
\<close>

type_synonym pystr = "nat list"
type_synonym byte = "8 word"

definition str :: "string \<Rightarrow> pystr" where
  "str s = map of_char s"

definition bytes_of :: "string \<Rightarrow> byte list" where
  "bytes_of s = map of_char s"

text \<open>
  What \<^verbatim>\<open>json.loads\<close> returns: \<^verbatim>\<open>None\<close>, a \<^verbatim>\<open>bool\<close>, an \<^verbatim>\<open>int\<close>, a
  \<^verbatim>\<open>float\<close>, a \<^verbatim>\<open>str\<close>, a \<^verbatim>\<open>list\<close> or a \<^verbatim>\<open>dict\<close> with \<^verbatim>\<open>str\<close> keys. A dict
  is an association list whose keys are distinct (the decoder keeps one entry per
  key); \<^verbatim>\<open>d.get(k)\<close> is \<open>map_of\<close>. Of a float only its being zero is ever
  looked at (its truth value), so a real number stands for it.
\<close>

datatype json =
    JNull
  | JBool bool
  | JInt int
  | JFloat real
  | JStr pystr
  | JArr "json list"
  | JObj "(pystr \<times> json) list"

text \<open>
  \<^verbatim>\<open>Response = Dict[str, Any]\<close>: the dict \<^verbatim>\<open>generate_response\<close> builds has the key
  \<^verbatim>\<open>'success'\<close> and, only when a message was given, the key \<^verbatim>\<open>'message'\<close>
  (inserted in that order).
\<close>

record response =
  success :: bool
  message :: "pystr option"

text \<open>
  \<^verbatim>\<open>if message:\<close> on an \<^verbatim>\<open>Optional[str]\<close>: \<^verbatim>\<open>None\<close> and the empty string are false.
\<close>

definition generate_response :: "bool \<Rightarrow> pystr option \<Rightarrow> response" where
  "generate_response succ msg =
     (case msg of
        None \<Rightarrow> \<lparr>success = succ, message = None\<rparr>
      | Some m \<Rightarrow> if m \<noteq> [] then \<lparr>success = succ, message = Some m\<rparr>
                  else \<lparr>success = succ, message = None\<rparr>)"

section \<open>Writing a response\<close>

subsection \<open>\<^verbatim>\<open>json.dumps\<close> on a response\<close>

text \<open>
  \<^verbatim>\<open>json.dumps(response)\<close> is called with no further argument: \<^verbatim>\<open>ensure_ascii\<close>
  is true and the separators are \<^verbatim>\<open>', '\<close> and \<^verbatim>\<open>': '\<close>. The string encoder of
  the standard library (\<^verbatim>\<open>py_encode_basestring_ascii\<close>) leaves the characters from
  the space to the tilde as they are, but for the backslash and the double quote,
  and replaces every other one: by its entry in \<^verbatim>\<open>ESCAPE_DCT\<close>, by
  \<^verbatim>\<open>'\\u{0:04x}'.format(n)\<close> below \<^verbatim>\<open>0x10000\<close>, by a surrogate pair above.
\<close>

definition hexdigit :: "nat \<Rightarrow> nat" where
  "hexdigit d = (if d < 10 then 48 + d else 87 + d)"

definition hex4 :: "nat \<Rightarrow> pystr" where
  "hex4 n = [hexdigit (n div 4096 mod 16), hexdigit (n div 256 mod 16),
             hexdigit (n div 16 mod 16), hexdigit (n mod 16)]"

definition u_escape :: "nat \<Rightarrow> pystr" where
  "u_escape n = [0x5C, 0x75] @ hex4 n"

definition replace :: "nat \<Rightarrow> pystr" where
  "replace c =
     (if 0x20 \<le> c \<and> c \<le> 0x7E \<and> c \<noteq> 0x5C \<and> c \<noteq> 0x22 then [c]
      else if c = 0x5C then [0x5C, 0x5C]
      else if c = 0x22 then [0x5C, 0x22]
      else if c = 0x08 then [0x5C, 0x62]
      else if c = 0x0C then [0x5C, 0x66]
      else if c = 0x0A then [0x5C, 0x6E]
      else if c = 0x0D then [0x5C, 0x72]
      else if c = 0x09 then [0x5C, 0x74]
      else if c < 0x10000 then u_escape c
      else (let n = c - 0x10000;
                s1 = 0xD800 + n div 1024 mod 1024;
                s2 = 0xDC00 + n mod 1024
            in u_escape s1 @ u_escape s2))"

definition encode_basestring_ascii :: "pystr \<Rightarrow> pystr" where
  "encode_basestring_ascii s = [0x22] @ concat (map replace s) @ [0x22]"

definition json_dumps :: "response \<Rightarrow> pystr" where
  "json_dumps r =
     str ''{'' @ encode_basestring_ascii (str ''success'') @ str '': ''
       @ (if success r then str ''true'' else str ''false'')
       @ (case message r of
            None \<Rightarrow> []
          | Some m \<Rightarrow> str '', '' @ encode_basestring_ascii (str ''message'') @ str '': ''
                        @ encode_basestring_ascii m)
       @ str ''}''"

subsection \<open>\<^verbatim>\<open>str.encode('utf-8')\<close>\<close>

text \<open>
  The strict encoder: a surrogate code point raises \<^verbatim>\<open>UnicodeEncodeError\<close>
  (\<open>None\<close>). No Python string holds a code point from \<^verbatim>\<open>0x110000\<close> on.
\<close>

definition utf8_encode_char :: "nat \<Rightarrow> byte list option" where
  "utf8_encode_char c =
     (if c < 0x80 then Some [of_nat c]
      else if c < 0x800 then Some [of_nat (0xC0 + c div 64), of_nat (0x80 + c mod 64)]
      else if c < 0x10000 then
        (if 0xD800 \<le> c \<and> c \<le> 0xDFFF then None
         else Some [of_nat (0xE0 + c div 4096), of_nat (0x80 + c div 64 mod 64),
                    of_nat (0x80 + c mod 64)])
      else if c < 0x110000 then
        Some [of_nat (0xF0 + c div 262144), of_nat (0x80 + c div 4096 mod 64),
              of_nat (0x80 + c div 64 mod 64), of_nat (0x80 + c mod 64)]
      else None)"

fun utf8_encode :: "pystr \<Rightarrow> byte list option" where
  "utf8_encode [] = Some []"
| "utf8_encode (c # cs) =
     (case utf8_encode_char c of
        None \<Rightarrow> None
      | Some bs \<Rightarrow> (case utf8_encode cs of None \<Rightarrow> None | Some rest \<Rightarrow> Some (bs @ rest)))"

subsection \<open>Events of a run\<close>

text \<open>
  A run of the plugin is observed through the byte strings it hands to
  \<^verbatim>\<open>WriteFile\<close> and the records it logs, in the order they happen. There is one log
  entry per logging call of the source; an entry carries the text the call
  interpolates when that text is data of the program.
\<close>

datatype level = INFO | ERROR

datatype log_entry =
    PluginStarted
  | ErrorReadingPipe
  | RawInput pystr
  | InvalidJSON pystr
  | JSONDecodingFailed
  | ExceptionInReadCommand
  | ErrorWritingResponse
  | ErrorReadingCommand
  | InitializingPlugin
  | ShuttingDownPlugin

fun level_of :: "log_entry \<Rightarrow> level" where
  "level_of PluginStarted = INFO"
| "level_of ErrorReadingPipe = ERROR"
| "level_of (RawInput _) = INFO"
| "level_of (InvalidJSON _) = ERROR"
| "level_of JSONDecodingFailed = ERROR"
| "level_of ExceptionInReadCommand = ERROR"
| "level_of ErrorWritingResponse = ERROR"
| "level_of ErrorReadingCommand = ERROR"
| "level_of InitializingPlugin = INFO"
| "level_of ShuttingDownPlugin = INFO"

datatype event = Wrote "byte list" | Logged log_entry

fun frames :: "event list \<Rightarrow> byte list list" where
  "frames [] = []"
| "frames (Wrote f # es) = f # frames es"
| "frames (Logged _ # es) = frames es"

text \<open>
  \<^verbatim>\<open>write_response\<close> (lines 268 to 282): the frame is \<^verbatim>\<open>json.dumps(response) +
  '<<END>>'\<close>, encoded and passed to \<^verbatim>\<open>WriteFile\<close> in one call; an exception is
  logged and swallowed. What the operating system does with the bytes is outside
  the model.
\<close>

definition write_response :: "response \<Rightarrow> event list" where
  "write_response r =
     (case utf8_encode (json_dumps r @ str ''<<END>>'') of
        None \<Rightarrow> [Logged ErrorWritingResponse]
      | Some message_bytes \<Rightarrow> [Wrote message_bytes])"

section \<open>The handlers\<close>

text \<open>
  \<^verbatim>\<open>initialize\<close> and \<^verbatim>\<open>shutdown\<close> (lines 284 to 304) log one record and return a
  fixed response.
\<close>

definition initialize :: "event list \<times> response" where
  "initialize =
     ([Logged InitializingPlugin],
      generate_response True (Some (str ''Plugin initialized successfully'')))"

definition shutdown :: "event list \<times> response" where
  "shutdown =
     ([Logged ShuttingDownPlugin],
      generate_response True (Some (str ''Plugin shutdown successfully'')))"

text \<open>The truth value Python gives a decoded JSON value (\<^verbatim>\<open>not prompt\<close>).\<close>

fun truthy :: "json \<Rightarrow> bool" where
  "truthy JNull = False"
| "truthy (JBool b) = b"
| "truthy (JInt i) = (i \<noteq> 0)"
| "truthy (JFloat x) = (x \<noteq> 0)"
| "truthy (JStr s) = (s \<noteq> [])"
| "truthy (JArr xs) = (xs \<noteq> [])"
| "truthy (JObj kvs) = (kvs \<noteq> [])"

text \<open>\<^verbatim>\<open>d.get(key, default)\<close> on a dict.\<close>

definition dict_get :: "(pystr \<times> json) list \<Rightarrow> pystr \<Rightarrow> json \<Rightarrow> json" where
  "dict_get kvs key dflt = (case map_of kvs key of None \<Rightarrow> dflt | Some v \<Rightarrow> v)"

text \<open>
  An exception that nothing catches. \<^verbatim>\<open>AttributeError\<close> is raised by \<^verbatim>\<open>.get\<close> on a
  value that is no dict, \<^verbatim>\<open>TypeError\<close> by a \<^verbatim>\<open>for\<close> over a value that cannot be
  iterated; \<open>HandlerException\<close> is any exception of the screen query other than a
  \<^verbatim>\<open>requests.RequestException\<close>.
\<close>

datatype fault = AttributeError | TypeError | HandlerException

text \<open>
  \<^verbatim>\<open>describe_screen\<close> (lines 154 to 193). Lines 161 to 190 take the screenshot and
  query the remote service: what they yield is decided outside the program, so it
  is the parameter \<open>api\<close>, a function of the state \<open>'w\<close> of the outside world and of
  the prompt. It gives the text \<^verbatim>\<open>f"{res}"\<close>, or a \<^verbatim>\<open>requests.RequestException\<close>
  (caught at line 192), or another exception (caught nowhere).
\<close>

datatype api_outcome = Output pystr | RequestException | OtherException

type_synonym 'w api = "'w \<Rightarrow> json \<Rightarrow> api_outcome \<times> 'w"

definition describe_screen :: "'w api \<Rightarrow> 'w \<Rightarrow> json \<Rightarrow> (fault + response) \<times> 'w" where
  "describe_screen api w params =
     (case params of
        JObj kvs \<Rightarrow>
          (let prompt = dict_get kvs (str ''prompt'') JNull in
           if \<not> truthy prompt then
             (Inr (generate_response False (Some (str ''Missing required parameter: prompt''))), w)
           else
             (case api w prompt of
                (Output res, w') \<Rightarrow> (Inr (generate_response True (Some res)), w')
              | (RequestException, w') \<Rightarrow>
                  (Inr (generate_response False (Some (str ''Failed to check Screen Description''))), w')
              | (OtherException, w') \<Rightarrow> (Inl HandlerException, w')))
      | _ \<Rightarrow> (Inl AttributeError, w))"

section \<open>Dispatch and the loop over the tool calls\<close>

text \<open>
  Lines 336 to 348, the body of the \<^verbatim>\<open>for\<close> loop up to the choice of the response:
  \<open>dispatch\<close> gives the records logged, the response, and whether the loop returns
  after writing it (the \<^verbatim>\<open>shutdown\<close> branch). \<^verbatim>\<open>func == "initialize"\<close> compares a
  decoded JSON value with a string: it holds of that string only.
\<close>

definition dispatch ::
  "'w api \<Rightarrow> 'w \<Rightarrow> json \<Rightarrow> (fault + event list \<times> response \<times> bool) \<times> 'w" where
  "dispatch api w tool_call =
     (case tool_call of
        JObj kvs \<Rightarrow>
          (let func = dict_get kvs (str ''func'') JNull;
               params = dict_get kvs (str ''params'') (JObj [])
           in
           if func = JStr (str ''initialize'') then
             (Inr (fst initialize, snd initialize, False), w)
           else if func = JStr (str ''describe_screen'') then
             (case describe_screen api w params of
                (Inl e, w') \<Rightarrow> (Inl e, w')
              | (Inr r, w') \<Rightarrow> (Inr ([], r, False), w'))
           else if func = JStr (str ''shutdown'') then
             (Inr (fst shutdown, snd shutdown, True), w)
           else
             (Inr ([], generate_response False (Some (str ''Unknown function call'')), False), w))
      | _ \<Rightarrow> (Inl AttributeError, w))"

text \<open>
  Where the plugin is: still in its loop (\<open>Running\<close>), returned from \<^verbatim>\<open>main\<close>
  (\<open>Stopped\<close>), or ended by an exception that left \<^verbatim>\<open>main\<close> (\<open>Crashed\<close>).
\<close>

datatype status = Running | Stopped | Crashed fault

text \<open>
  The \<^verbatim>\<open>for\<close> loop of lines 335 to 350: each response is written as soon as it is
  chosen; \<^verbatim>\<open>shutdown\<close> writes its response and returns; an exception ends the loop
  with nothing written for that call.
\<close>

fun for_loop :: "'w api \<Rightarrow> 'w \<Rightarrow> json list \<Rightarrow> event list \<times> status \<times> 'w" where
  "for_loop api w [] = ([], Running, w)"
| "for_loop api w (tool_call # rest) =
     (case dispatch api w tool_call of
        (Inl e, w') \<Rightarrow> ([], Crashed e, w')
      | (Inr (logged, r, stop), w') \<Rightarrow>
          if stop then (logged @ write_response r, Stopped, w')
          else (case for_loop api w' rest of
                  (evs, st, w'') \<Rightarrow> (logged @ write_response r @ evs, st, w'')))"

text \<open>
  What \<^verbatim>\<open>for tool_call in tool_calls\<close> runs over: the items of a list, the
  characters of a string, the keys of a dict; any other value raises
  \<^verbatim>\<open>TypeError\<close>.
\<close>

fun py_iter :: "json \<Rightarrow> fault + json list" where
  "py_iter (JArr xs) = Inr xs"
| "py_iter (JStr s) = Inr (map (\<lambda>c. JStr [c]) s)"
| "py_iter (JObj kvs) = Inr (map (\<lambda>kv. JStr (fst kv)) kvs)"
| "py_iter _ = Inl TypeError"

text \<open>Lines 334 to 350, for a command that is not \<^verbatim>\<open>None\<close>.\<close>

definition process_command :: "'w api \<Rightarrow> 'w \<Rightarrow> json \<Rightarrow> event list \<times> status \<times> 'w" where
  "process_command api w command =
     (case command of
        JObj kvs \<Rightarrow>
          (case py_iter (dict_get kvs (str ''tool_calls'') (JArr [])) of
             Inl e \<Rightarrow> ([], Crashed e, w)
           | Inr tool_calls \<Rightarrow> for_loop api w tool_calls)
      | _ \<Rightarrow> ([], Crashed AttributeError, w))"

section \<open>Reading a command\<close>

subsection \<open>\<^verbatim>\<open>bytes.decode('utf-8')\<close>\<close>

text \<open>
  The strict decoder: shortest forms only, no surrogates, nothing above
  \<^verbatim>\<open>0x10FFFF\<close>; anything else raises \<^verbatim>\<open>UnicodeDecodeError\<close> (\<open>None\<close>).
\<close>

definition cont :: "byte \<Rightarrow> bool" where
  "cont b = (0x80 \<le> b \<and> b \<le> 0xBF)"

definition low6 :: "byte \<Rightarrow> nat" where
  "low6 b = unat b mod 64"

definition cons_opt :: "'a \<Rightarrow> 'a list option \<Rightarrow> 'a list option" where
  "cons_opt c r = (case r of None \<Rightarrow> None | Some cs \<Rightarrow> Some (c # cs))"

fun utf8_decode :: "byte list \<Rightarrow> pystr option" where
  "utf8_decode [] = Some []"
| "utf8_decode (b # bs) =
     (if b < 0x80 then cons_opt (unat b) (utf8_decode bs)
      else if 0xC2 \<le> b \<and> b \<le> 0xDF then
        (case bs of
           b1 # bs1 \<Rightarrow>
             if cont b1 then cons_opt (unat b mod 32 * 64 + low6 b1) (utf8_decode bs1)
             else None
         | _ \<Rightarrow> None)
      else if 0xE0 \<le> b \<and> b \<le> 0xEF then
        (case bs of
           b1 # b2 # bs2 \<Rightarrow>
             if cont b1 \<and> cont b2 \<and> (b = 0xE0 \<longrightarrow> 0xA0 \<le> b1) \<and> (b = 0xED \<longrightarrow> b1 \<le> 0x9F)
             then cons_opt (unat b mod 16 * 4096 + low6 b1 * 64 + low6 b2) (utf8_decode bs2)
             else None
         | _ \<Rightarrow> None)
      else if 0xF0 \<le> b \<and> b \<le> 0xF4 then
        (case bs of
           b1 # b2 # b3 # bs3 \<Rightarrow>
             if cont b1 \<and> cont b2 \<and> cont b3 \<and> (b = 0xF0 \<longrightarrow> 0x90 \<le> b1)
                \<and> (b = 0xF4 \<longrightarrow> b1 \<le> 0x8F)
             then cons_opt (unat b mod 8 * 262144 + low6 b1 * 4096 + low6 b2 * 64 + low6 b3)
                    (utf8_decode bs3)
             else None
         | _ \<Rightarrow> None)
      else None)"

subsection \<open>The input handle\<close>

text \<open>
  \<^verbatim>\<open>BUFFER_SIZE\<close> (line 50). The input handle is what its \<^verbatim>\<open>ReadFile\<close> calls
  return, one after the other: a call fails, or it succeeds and has stored some
  bytes at the start of the buffer, at most \<^verbatim>\<open>BUFFER_SIZE\<close> of them.
\<close>

definition BUFFER_SIZE :: nat where
  "BUFFER_SIZE = 4096"

datatype readfile = ReadFailed | ReadOk "byte list"

text \<open>
  What the three exits of \<^verbatim>\<open>json.loads\<close> are to \<^verbatim>\<open>read_command\<close>: a value, a
  \<^verbatim>\<open>json.JSONDecodeError\<close>, any other exception. The decoder belongs to the
  standard library and is a parameter.
\<close>

datatype loads_result = Decoded json | JSONDecodeError | OtherError

type_synonym loads = "pystr \<Rightarrow> loads_result"

text \<open>
  The \<^verbatim>\<open>while\<close> loop of \<^verbatim>\<open>read_command\<close> (lines 222 to 241). Each round makes a
  fresh buffer of \<^verbatim>\<open>BUFFER_SIZE\<close> zero bytes, which \<^verbatim>\<open>ReadFile\<close> fills from the
  start; the whole buffer is decoded, and the first \<^verbatim>\<open>message_bytes.value\<close>
  characters of the decoded text are the chunk. The loop goes on while a read
  fills the buffer. A call with no read left to answer it never returns
  (\<open>Blocked\<close>).
\<close>

datatype chunks_result = Blocked | ReadError | DecodeError | Chunks "pystr list"

fun read_chunks :: "readfile list \<Rightarrow> pystr list \<Rightarrow> chunks_result \<times> readfile list" where
  "read_chunks [] chunks = (Blocked, [])"
| "read_chunks (ReadFailed # rs) chunks = (ReadError, rs)"
| "read_chunks (ReadOk data # rs) chunks =
     (let message_bytes = min (length data) BUFFER_SIZE;
          buffer = take message_bytes data @ replicate (BUFFER_SIZE - message_bytes) 0
      in case utf8_decode buffer of
           None \<Rightarrow> (DecodeError, rs)
         | Some text \<Rightarrow>
             (let chunks' = chunks @ [take message_bytes text] in
              if message_bytes < BUFFER_SIZE then (Chunks chunks', rs)
              else read_chunks rs chunks'))"

text \<open>
  \<^verbatim>\<open>read_command\<close> (lines 218 to 253): what it returns (\<open>None\<close> when it never
  returns; Python's \<^verbatim>\<open>None\<close> is \<open>JNull\<close>, which is also what \<^verbatim>\<open>json.loads\<close> gives
  for the text \<^verbatim>\<open>null\<close>), what it logs, and the reads that are left.
\<close>

definition read_command ::
  "loads \<Rightarrow> readfile list \<Rightarrow> json option \<times> log_entry list \<times> readfile list" where
  "read_command loads rs =
     (case read_chunks rs [] of
        (Blocked, rs') \<Rightarrow> (None, [], rs')
      | (ReadError, rs') \<Rightarrow> (Some JNull, [ErrorReadingPipe], rs')
      | (DecodeError, rs') \<Rightarrow> (Some JNull, [ExceptionInReadCommand], rs')
      | (Chunks chunks, rs') \<Rightarrow>
          (let retval = concat chunks in
           case loads retval of
             Decoded v \<Rightarrow> (Some v, [RawInput retval], rs')
           | JSONDecodeError \<Rightarrow>
               (Some JNull, [RawInput retval, InvalidJSON retval, JSONDecodingFailed], rs')
           | OtherError \<Rightarrow> (Some JNull, [RawInput retval, ExceptionInReadCommand], rs')))"

section \<open>The main loop\<close>

lemma read_chunks_shorter:
  "read_chunks rs chunks = (res, rs') \<Longrightarrow> res \<noteq> Blocked \<Longrightarrow> length rs' < length rs"
proof (induction rs chunks rule: read_chunks.induct)
  case (3 data rs chunks)
  then show ?case
    by (fastforce simp: Let_def split: option.splits if_splits)
qed auto

lemma read_command_shorter:
  "read_command loads rs = (Some v, logged, rs') \<Longrightarrow> length rs' < length rs"
  unfolding read_command_def
  by (auto simp: Let_def split: prod.splits chunks_result.splits loads_result.splits
        dest: read_chunks_shorter)

text \<open>
  The \<^verbatim>\<open>while True\<close> loop of \<^verbatim>\<open>main\<close> (lines 328 to 350), run against the reads the
  input handle still has to give. When they are used up the loop is blocked in
  \<^verbatim>\<open>ReadFile\<close>, still \<open>Running\<close>.
\<close>

function lifecycle ::
  "loads \<Rightarrow> 'w api \<Rightarrow> 'w \<Rightarrow> readfile list \<Rightarrow> event list \<times> status \<times> 'w" where
  "lifecycle loads api w rs =
     (case read_command loads rs of
        (None, logged, rs') \<Rightarrow> (map Logged logged, Running, w)
      | (Some command, logged, rs') \<Rightarrow>
          if command = JNull then
            (case lifecycle loads api w rs' of
               (evs, st, w') \<Rightarrow>
                 (map Logged logged @ [Logged ErrorReadingCommand] @ evs, st, w'))
          else
            (case process_command api w command of
               (evs, st, w') \<Rightarrow>
                 if st = Running then
                   (case lifecycle loads api w' rs' of
                      (evs', st', w'') \<Rightarrow> (map Logged logged @ evs @ evs', st', w''))
                 else (map Logged logged @ evs, st, w')))"
  by pat_completeness auto
termination
  by (relation "measure (\<lambda>(loads, api, w, rs). length rs)")
     (auto dest: read_command_shorter [OF sym])

text \<open>\<^verbatim>\<open>main\<close> (lines 325 to 350); \<^verbatim>\<open>setup_logging\<close> only configures the log file.\<close>

definition main :: "loads \<Rightarrow> 'w api \<Rightarrow> 'w \<Rightarrow> readfile list \<Rightarrow> event list \<times> status \<times> 'w" where
  "main loads api w rs =
     (case lifecycle loads api w rs of
        (evs, st, w') \<Rightarrow> (Logged PluginStarted # evs, st, w'))"

section \<open>What the host reads back\<close>

text \<open>
  Modelled from the spec: the decoder of a Result frame belongs to the host and is
  not in the repository. The spec has it strip the terminator \<^verbatim>\<open><<END>>\<close> and parse
  the JSON payload. \<open>decode_frame\<close> does that for the JSON a Result uses: an object
  whose members are strings, \<^verbatim>\<open>true\<close>, \<^verbatim>\<open>false\<close> or \<^verbatim>\<open>null\<close>, with white space
  between the tokens; in a string, the escapes of JSON, a \<^verbatim>\<open>\u\<close> escape of a high
  surrogate followed by one of a low surrogate being one character. Anything else
  is refused (\<open>None\<close>).
\<close>

definition strip_terminator :: "byte list \<Rightarrow> byte list option" where
  "strip_terminator fr =
     (let n = length fr - 7 in
      if 7 \<le> length fr \<and> drop n fr = bytes_of ''<<END>>'' then Some (take n fr) else None)"

text \<open>The parser works on the decoded text.\<close>

definition is_ws :: "nat \<Rightarrow> bool" where
  "is_ws c = (c = 0x20 \<or> c = 0x09 \<or> c = 0x0A \<or> c = 0x0D)"

definition skip_ws :: "pystr \<Rightarrow> pystr" where
  "skip_ws s = dropWhile is_ws s"

definition hexval :: "nat \<Rightarrow> nat option" where
  "hexval c =
     (if 0x30 \<le> c \<and> c \<le> 0x39 then Some (c - 0x30)
      else if 0x61 \<le> c \<and> c \<le> 0x66 then Some (c - 0x57)
      else if 0x41 \<le> c \<and> c \<le> 0x46 then Some (c - 0x37)
      else None)"

definition unhex4 :: "pystr \<Rightarrow> nat option" where
  "unhex4 s =
     (case s of
        [a, b, c, d] \<Rightarrow>
          (case (hexval a, hexval b, hexval c, hexval d) of
             (Some x, Some y, Some z, Some t) \<Rightarrow> Some (x * 4096 + y * 256 + z * 16 + t)
           | _ \<Rightarrow> None)
      | _ \<Rightarrow> None)"

definition unescape :: "nat \<Rightarrow> nat option" where
  "unescape e =
     (if e = 0x22 \<or> e = 0x5C \<or> e = 0x2F then Some e
      else if e = 0x62 then Some 0x08
      else if e = 0x66 then Some 0x0C
      else if e = 0x6E then Some 0x0A
      else if e = 0x72 then Some 0x0D
      else if e = 0x74 then Some 0x09
      else None)"

definition high_surrogate :: "nat \<Rightarrow> bool" where
  "high_surrogate u = (0xD800 \<le> u \<and> u \<le> 0xDBFF)"

definition low_surrogate :: "nat \<Rightarrow> bool" where
  "low_surrogate u = (0xDC00 \<le> u \<and> u \<le> 0xDFFF)"

definition push :: "nat \<Rightarrow> (pystr \<times> pystr) option \<Rightarrow> (pystr \<times> pystr) option" where
  "push c r = (case r of None \<Rightarrow> None | Some (t, rest) \<Rightarrow> Some (c # t, rest))"

text \<open>\<open>scan_string\<close> reads a string from behind its opening quote to its closing quote.\<close>

function scan_string :: "pystr \<Rightarrow> (pystr \<times> pystr) option" where
  "scan_string [] = None"
| "scan_string (c # cs) =
     (if c = 0x22 then Some ([], cs)
      else if c = 0x5C then
        (case cs of
           [] \<Rightarrow> None
         | e # es \<Rightarrow>
             if e = 0x75 then
               (case unhex4 (take 4 es) of
                  None \<Rightarrow> None
                | Some u \<Rightarrow>
                    if high_surrogate u \<and> take 2 (drop 4 es) = [0x5C, 0x75] then
                      (case unhex4 (take 4 (drop 6 es)) of
                         None \<Rightarrow> None
                       | Some u2 \<Rightarrow>
                           if low_surrogate u2 then
                             push (0x10000 + (u - 0xD800) * 1024 + (u2 - 0xDC00))
                               (scan_string (drop 10 es))
                           else push u (scan_string (drop 4 es)))
                    else push u (scan_string (drop 4 es)))
             else (case unescape e of
                     None \<Rightarrow> None
                   | Some x \<Rightarrow> push x (scan_string es)))
      else if c < 0x20 then None
      else push c (scan_string cs))"
  by pat_completeness auto
termination
  by (relation "measure length") auto

definition parse_value :: "pystr \<Rightarrow> (json \<times> pystr) option" where
  "parse_value s =
     (case s of
        [] \<Rightarrow> None
      | c # cs \<Rightarrow>
          if c = 0x22 then
            (case scan_string cs of None \<Rightarrow> None | Some (t, rest) \<Rightarrow> Some (JStr t, rest))
          else if take 4 s = str ''true'' then Some (JBool True, drop 4 s)
          else if take 5 s = str ''false'' then Some (JBool False, drop 5 s)
          else if take 4 s = str ''null'' then Some (JNull, drop 4 s)
          else None)"

lemma scan_string_shorter: "scan_string s = Some (t, rest) \<Longrightarrow> length rest < length s"
proof (induction s arbitrary: t rule: scan_string.induct)
  case 1
  then show ?case by simp
next
  case (2 c cs)
  then show ?case
    by (fastforce simp: push_def split: if_splits list.splits option.splits prod.splits)
qed

lemma parse_value_shorter: "parse_value s = Some (v, rest) \<Longrightarrow> length rest < length s"
  by (auto simp: parse_value_def str_def split: list.splits if_splits option.splits
        dest: scan_string_shorter)

lemma skip_ws_length: "length (skip_ws s) \<le> length s"
  by (simp add: skip_ws_def length_dropWhile_le)

lemma parse_members_decreases:
  assumes "scan_string cs = Some (key, s1)" and "skip_ws s1 = c1 # s2"
    and "parse_value (skip_ws s2) = Some (v, s3)" and "skip_ws s3 = c2 # s4"
  shows "length (skip_ws s4) < Suc (length cs)"
proof -
  have "length s1 < length cs"
    using assms(1) by (rule scan_string_shorter)
  moreover have "length s2 < length s1"
    using assms(2) skip_ws_length [of s1] by simp
  moreover have "length s3 < length s2"
    using parse_value_shorter [OF assms(3)] skip_ws_length [of s2] by simp
  moreover have "length s4 < length s3"
    using assms(4) skip_ws_length [of s3] by simp
  ultimately show ?thesis
    using skip_ws_length [of s4] by simp
qed

text \<open>The members of an object, from the quote of the first key to the closing brace.\<close>

function parse_members :: "pystr \<Rightarrow> ((pystr \<times> json) list \<times> pystr) option" where
  "parse_members s =
     (case s of
        [] \<Rightarrow> None
      | c # cs \<Rightarrow>
          if c \<noteq> 0x22 then None
          else
            (case scan_string cs of
               None \<Rightarrow> None
             | Some (key, s1) \<Rightarrow>
                 (case skip_ws s1 of
                    [] \<Rightarrow> None
                  | c1 # s2 \<Rightarrow>
                      if c1 \<noteq> 0x3A then None
                      else
                        (case parse_value (skip_ws s2) of
                           None \<Rightarrow> None
                         | Some (v, s3) \<Rightarrow>
                             (case skip_ws s3 of
                                [] \<Rightarrow> None
                              | c2 # s4 \<Rightarrow>
                                  if c2 = 0x7D then Some ([(key, v)], s4)
                                  else if c2 = 0x2C then
                                    (case parse_members (skip_ws s4) of
                                       None \<Rightarrow> None
                                     | Some (kvs, s5) \<Rightarrow> Some ((key, v) # kvs, s5))
                                  else None)))))"
  by pat_completeness auto
termination
  by (relation "measure length") (auto intro: parse_members_decreases)




definition parse_object :: "pystr \<Rightarrow> json option" where
  "parse_object s =
     (case skip_ws s of
        [] \<Rightarrow> None
      | c # cs \<Rightarrow>
          if c \<noteq> 0x7B then None
          else
            (case skip_ws cs of
               [] \<Rightarrow> None
             | c1 # cs1 \<Rightarrow>
                 if c1 = 0x7D then (if skip_ws cs1 = [] then Some (JObj []) else None)
                 else
                   (case parse_members (c1 # cs1) of
                      None \<Rightarrow> None
                    | Some (kvs, rest) \<Rightarrow>
                        if skip_ws rest = [] then Some (JObj kvs) else None)))"

text \<open>
  A Result is an object with a boolean \<^verbatim>\<open>success\<close> and, if it has one, a string
  \<^verbatim>\<open>message\<close>; of a repeated key the last member counts.
\<close>

definition result_of_json :: "json \<Rightarrow> response option" where
  "result_of_json v =
     (case v of
        JObj kvs \<Rightarrow>
          (case map_of (rev kvs) (str ''success'') of
             Some (JBool b) \<Rightarrow>
               (case map_of (rev kvs) (str ''message'') of
                  None \<Rightarrow> Some \<lparr>success = b, message = None\<rparr>
                | Some (JStr m) \<Rightarrow> Some \<lparr>success = b, message = Some m\<rparr>
                | Some _ \<Rightarrow> None)
           | _ \<Rightarrow> None)
      | _ \<Rightarrow> None)"

definition decode_frame :: "byte list \<Rightarrow> response option" where
  "decode_frame fr =
     (case strip_terminator fr of
        None \<Rightarrow> None
      | Some payload \<Rightarrow>
          (case utf8_decode payload of
             None \<Rightarrow> None
           | Some text \<Rightarrow>
               (case parse_object text of
                  None \<Rightarrow> None
                | Some v \<Rightarrow> result_of_json v)))"

text \<open>
  The texts that a frame can carry back: code points of Unicode, with no high
  surrogate directly before a low surrogate (such two code points are escaped like
  the one character they encode in UTF-16). Every text without surrogates is one.
\<close>

fun no_split_pair :: "pystr \<Rightarrow> bool" where
  "no_split_pair (a # b # cs) =
     (\<not> (high_surrogate a \<and> low_surrogate b) \<and> no_split_pair (b # cs))"
| "no_split_pair _ = True"

definition round_trip_text :: "pystr \<Rightarrow> bool" where
  "round_trip_text m = ((\<forall>c\<in>set m. c < 0x110000) \<and> no_split_pair m)"

text \<open>
  What may follow the escape of a high surrogate for the scanner to read that
  escape as one code point: anything but the escape of a low surrogate.
\<close>

definition safe_after_high :: "pystr \<Rightarrow> bool" where
  "safe_after_high t =
     (take 2 t \<noteq> [0x5C, 0x75]
      \<or> (\<exists>u2. unhex4 (take 4 (drop 2 t)) = Some u2 \<and> \<not> low_surrogate u2))"

section \<open>The invocations of a command\<close>

text \<open>
  An invocation is a map whose \<^verbatim>\<open>params\<close>, when given, is a map. \<open>served\<close> are the
  invocations of a list up to the first \<^verbatim>\<open>shutdown\<close>, that one included;
  \<open>answers api tool_call fr\<close> says that \<open>fr\<close> is the frame of a response that
  dispatch gives for \<open>tool_call\<close>.
\<close>

definition well_formed_invocation :: "json \<Rightarrow> bool" where
  "well_formed_invocation tool_call =
     (case tool_call of
        JObj kvs \<Rightarrow>
          (case map_of kvs (str ''params'') of
             None \<Rightarrow> True
           | Some (JObj ps) \<Rightarrow> True
           | Some _ \<Rightarrow> False)
      | _ \<Rightarrow> False)"

definition is_shutdown :: "json \<Rightarrow> bool" where
  "is_shutdown tool_call =
     (case tool_call of
        JObj kvs \<Rightarrow> dict_get kvs (str ''func'') JNull = JStr (str ''shutdown'')
      | _ \<Rightarrow> False)"

definition served :: "json list \<Rightarrow> json list" where
  "served tool_calls =
     takeWhile (\<lambda>tc. \<not> is_shutdown tc) tool_calls
       @ take 1 (dropWhile (\<lambda>tc. \<not> is_shutdown tc) tool_calls)"

definition answers :: "'w api \<Rightarrow> json \<Rightarrow> byte list \<Rightarrow> bool" where
  "answers api tool_call fr =
     (\<exists>w. case dispatch api w tool_call of
            (Inl e, w') \<Rightarrow> False
          | (Inr (logged, r, stop), w') \<Rightarrow> write_response r = [Wrote fr])"

section \<open>Facts about the embedding\<close>

subsection \<open>Frames\<close>

lemma hexdigit_ascii: "d < 16 \<Longrightarrow> hexdigit d < 128"
  by (simp add: hexdigit_def)

lemma u_escape_ascii: "\<forall>x\<in>set (u_escape n). x < 128"
  by (simp add: u_escape_def hex4_def hexdigit_ascii)

lemma replace_ascii: "\<forall>x\<in>set (replace c). x < 128"
  using u_escape_ascii by (auto simp: replace_def Let_def)

lemma encode_basestring_ascii_ascii: "\<forall>x\<in>set (encode_basestring_ascii s). x < 128"
  using replace_ascii by (auto simp: encode_basestring_ascii_def)

lemma json_dumps_ascii: "\<forall>x\<in>set (json_dumps r). x < 128"
  using encode_basestring_ascii_ascii
  by (auto simp: json_dumps_def str_def split: option.splits)

lemma utf8_encode_ascii: "\<forall>x\<in>set s. x < 128 \<Longrightarrow> utf8_encode s = Some (map of_nat s)"
  by (induction s) (simp_all add: utf8_encode_char_def)

text \<open>
  \<^verbatim>\<open>json.dumps\<close> gives ASCII only, so the encoding never fails and every call of
  \<^verbatim>\<open>write_response\<close> hands exactly one frame to \<^verbatim>\<open>WriteFile\<close>.
\<close>

lemma write_response_writes:
  "write_response r = [Wrote (map of_nat (json_dumps r @ str ''<<END>>''))]"
proof -
  have "\<forall>x\<in>set (json_dumps r @ str ''<<END>>''). x < 128"
    using json_dumps_ascii [of r] by (auto simp: str_def)
  then show ?thesis
    by (simp add: write_response_def utf8_encode_ascii del: map_append)
qed

lemma frames_append [simp]: "frames (xs @ ys) = frames xs @ frames ys"
  by (induction xs rule: frames.induct) simp_all

lemma frames_Logged [simp]: "frames (map Logged ls) = []"
  by (induction ls) simp_all

lemmas eval_response =
  write_response_def generate_response_def json_dumps_def str_def bytes_of_def
  encode_basestring_ascii_def replace_def utf8_encode_char_def

lemma write_initialize:
  \<open>write_response (snd initialize) =
     [Wrote (bytes_of ''{"success": true, "message": "Plugin initialized successfully"}<<END>>'')]\<close>
  by (simp add: initialize_def eval_response)


lemma write_unknown:
  \<open>write_response (generate_response False (Some (str ''Unknown function call''))) =
     [Wrote (bytes_of ''{"success": false, "message": "Unknown function call"}<<END>>'')]\<close>
  by (simp add: eval_response)

subsection \<open>Reading\<close>

lemma cons_opt_simps [simp]:
  "cons_opt c None = None" "cons_opt c (Some cs) = Some (c # cs)"
  by (simp_all add: cons_opt_def)

lemma utf8_decode_zeros: "utf8_decode (replicate k 0) = Some (replicate k 0)"
  by (induction k) simp_all

lemma utf8_decode_ascii_padded:
  "\<forall>b\<in>set bs. b < 0x80 \<Longrightarrow>
   utf8_decode (bs @ replicate k 0) = Some (map unat bs @ replicate k 0)"
  by (induction bs) (simp_all add: utf8_decode_zeros)

text \<open>
  On ASCII bytes the chunk is the bytes read: a read that does not fill the buffer
  ends the message, a read that fills it is followed by another read.
\<close>

lemma read_chunks_ascii_short:
  assumes "\<forall>b\<in>set data. b < 0x80" and "length data < BUFFER_SIZE"
  shows "read_chunks (ReadOk data # rs) chunks = (Chunks (chunks @ [map unat data]), rs)"
  using assms by (simp add: Let_def min_def utf8_decode_ascii_padded)

lemma read_chunks_ascii_full:
  assumes "\<forall>b\<in>set data. b < 0x80" and "length data = BUFFER_SIZE"
  shows "read_chunks (ReadOk data # rs) chunks = read_chunks rs (chunks @ [map unat data])"
  using assms utf8_decode_ascii_padded [of data 0] by (simp add: Let_def)

subsection \<open>One round of the main loop\<close>

declare lifecycle.simps [simp del]

lemma lifecycle_blocked:
  "read_command loads rs = (None, logged, rs') \<Longrightarrow>
   lifecycle loads api w rs = (map Logged logged, Running, w)"
  by (subst lifecycle.simps) simp

lemma lifecycle_no_command:
  "read_command loads rs = (Some JNull, logged, rs') \<Longrightarrow>
   lifecycle loads api w rs =
     (case lifecycle loads api w rs' of
        (evs, st, w') \<Rightarrow> (map Logged logged @ [Logged ErrorReadingCommand] @ evs, st, w'))"
  by (subst lifecycle.simps) simp

lemma lifecycle_command:
  "read_command loads rs = (Some command, logged, rs') \<Longrightarrow> command \<noteq> JNull \<Longrightarrow>
   lifecycle loads api w rs =
     (case process_command api w command of
        (evs, st, w') \<Rightarrow>
          if st = Running then
            (case lifecycle loads api w' rs' of
               (evs', st', w'') \<Rightarrow> (map Logged logged @ evs @ evs', st', w''))
          else (map Logged logged @ evs, st, w'))"
  by (subst lifecycle.simps) simp

lemma read_command_nil: "read_command loads [] = (None, [], [])"
  by (simp add: read_command_def)

lemma lifecycle_nil: "lifecycle loads api w [] = ([], Running, w)"
  using lifecycle_blocked [OF read_command_nil] by simp

subsection \<open>Dispatch\<close>

lemma dispatch_unknown:
  assumes "dict_get kvs (str ''func'') JNull \<noteq> JStr (str ''initialize'')"
    and "dict_get kvs (str ''func'') JNull \<noteq> JStr (str ''describe_screen'')"
    and "dict_get kvs (str ''func'') JNull \<noteq> JStr (str ''shutdown'')"
  shows "dispatch api w (JObj kvs) =
     (Inr ([], \<lparr>success = False, message = Some (str ''Unknown function call'')\<rparr>, False), w)"
  using assms by (simp add: dispatch_def Let_def generate_response_def str_def)

lemma for_loop_unknown:
  assumes "dict_get kvs (str ''func'') JNull \<noteq> JStr (str ''initialize'')"
    and "dict_get kvs (str ''func'') JNull \<noteq> JStr (str ''describe_screen'')"
    and "dict_get kvs (str ''func'') JNull \<noteq> JStr (str ''shutdown'')"
  shows \<open>for_loop api w (JObj kvs # rest) =
     (case for_loop api w rest of
        (evs, st, w') \<Rightarrow>
          (Wrote (bytes_of ''{"success": false, "message": "Unknown function call"}<<END>>'') # evs,
           st, w'))\<close>
proof -
  have "dispatch api w (JObj kvs) =
     (Inr ([], generate_response False (Some (str ''Unknown function call'')), False), w)"
    using assms by (simp add: dispatch_def Let_def)
  then show ?thesis
    by (simp add: write_unknown split: prod.splits)
qed

subsection \<open>The reserved names\<close>











lemma read_command_ascii:
  assumes "\<forall>b\<in>set data. b < 0x80" and "length data < BUFFER_SIZE"
    and "loads (map unat data) = Decoded v"
  shows "read_command loads (ReadOk data # rs) = (Some v, [RawInput (map unat data)], rs)"
  unfolding read_command_def read_chunks_ascii_short [OF assms(1,2)]
  using assms(3) by simp

subsection \<open>Defaults, failed reads, chunk boundaries\<close>

lemma process_command_no_tool_calls:
  assumes "map_of kvs (str ''tool_calls'') = None"
  shows "process_command api w (JObj kvs) = ([], Running, w)"
  using assms by (simp add: process_command_def dict_get_def)

lemma lifecycle_no_tool_calls:
  assumes "map_of kvs (str ''tool_calls'') = None"
    and "read_command loads rs = (Some (JObj kvs), logged, rs')"
  shows "lifecycle loads api w rs =
     (case lifecycle loads api w rs' of (evs, st, w') \<Rightarrow> (map Logged logged @ evs, st, w'))"
  using lifecycle_command [OF assms(2), of api w] process_command_no_tool_calls [OF assms(1), of api w]
  by simp

lemma dispatch_params_default:
  assumes "map_of tc (str ''params'') = None"
  shows "dispatch api w (JObj tc) = dispatch api w (JObj (tc @ [(str ''params'', JObj [])]))"
proof -
  have "str ''func'' \<noteq> str ''params''"
    by (simp add: str_def)
  then have "dict_get (tc @ [(str ''params'', JObj [])]) (str ''func'') JNull
      = dict_get tc (str ''func'') JNull"
    by (simp add: dict_get_def map_add_def split: option.splits)
  moreover have "dict_get (tc @ [(str ''params'', JObj [])]) (str ''params'') (JObj [])
      = dict_get tc (str ''params'') (JObj [])"
    using assms by (simp add: dict_get_def map_add_def)
  ultimately show ?thesis
    by (simp add: dispatch_def)
qed

lemma dispatch_describe_screen_no_params:
  assumes "map_of tc (str ''params'') = None"
    and "dict_get tc (str ''func'') JNull = JStr (str ''describe_screen'')"
  shows "dispatch api w (JObj tc) =
     (Inr ([], \<lparr>success = False, message = Some (str ''Missing required parameter: prompt'')\<rparr>,
           False), w)"
proof -
  have "dict_get tc (str ''params'') (JObj []) = JObj []"
    using assms(1) by (simp add: dict_get_def)
  moreover have "describe_screen api w (JObj []) =
     (Inr \<lparr>success = False, message = Some (str ''Missing required parameter: prompt'')\<rparr>, w)"
    by (simp add: describe_screen_def dict_get_def generate_response_def str_def)
  moreover have "JStr (str ''describe_screen'') \<noteq> JStr (str ''initialize'')"
    by (simp add: str_def)
  ultimately show ?thesis
    using assms(2) by (simp add: dispatch_def Let_def)
qed

lemma read_command_read_error:
  assumes "read_chunks rs [] = (ReadError, rs')"
  shows "read_command loads rs = (Some JNull, [ErrorReadingPipe], rs')"
  using assms by (simp add: read_command_def)

lemma read_command_invalid_json:
  assumes "read_chunks rs [] = (Chunks chunks, rs')"
    and "loads (concat chunks) = JSONDecodeError"
  shows "read_command loads rs =
     (Some JNull,
      [RawInput (concat chunks), InvalidJSON (concat chunks), JSONDecodingFailed], rs')"
  using assms by (simp add: read_command_def Let_def)

lemma lifecycle_failed_read:
  assumes "read_command loads rs = (Some JNull, logged, rs')"
  shows "lifecycle loads api w rs =
     (case lifecycle loads api w rs' of
        (evs, st, w') \<Rightarrow> (map Logged (logged @ [ErrorReadingCommand]) @ evs, st, w'))"
    and "rs' = [] \<longrightarrow>
       lifecycle loads api w rs = (map Logged (logged @ [ErrorReadingCommand]), Running, w)"
  using lifecycle_no_command [OF assms, of api w] by (auto simp: lifecycle_nil)

lemma read_chunks_full_then_blocked:
  assumes "\<forall>b\<in>set data. b < 0x80" and "length data = BUFFER_SIZE"
  shows "read_chunks [ReadOk data] [] = (Blocked, [])"
proof -
  have "read_chunks [ReadOk data] [] = read_chunks [] ([] @ [map unat data])"
    using assms by (rule read_chunks_ascii_full)
  also have "\<dots> = (Blocked, [])"
    by simp
  finally show ?thesis .
qed

lemma read_chunks_full_then_empty:
  assumes "\<forall>b\<in>set data. b < 0x80" and "length data = BUFFER_SIZE"
  shows "read_chunks (ReadOk data # ReadOk [] # rs) [] = (Chunks [map unat data, []], rs)"
proof -
  have "read_chunks (ReadOk data # ReadOk [] # rs) []
      = read_chunks (ReadOk [] # rs) ([] @ [map unat data])"
    using assms by (rule read_chunks_ascii_full)
  also have "\<dots> = (Chunks (([] @ [map unat data]) @ [map unat ([] :: byte list)]), rs)"
    by (rule read_chunks_ascii_short) (simp_all add: BUFFER_SIZE_def)
  also have "\<dots> = (Chunks [map unat data, []], rs)"
    by simp
  finally show ?thesis .
qed

lemma main_crash:
  assumes "read_command loads rs = (Some command, logged, rs')" and "command \<noteq> JNull"
    and "process_command api w command = ([], Crashed e, w)"
  shows "main loads api w rs = (Logged PluginStarted # map Logged logged, Crashed e, w)"
  using lifecycle_command [OF assms(1,2), of api w] assms(3) by (simp add: main_def)

subsection \<open>One frame for each invocation\<close>

lemma served_Nil [simp]: "served [] = []"
  by (simp add: served_def)

lemma served_Cons:
  "served (tc # rest) = (if is_shutdown tc then [tc] else tc # served rest)"
  by (simp add: served_def)

lemma describe_screen_returns:
  assumes "\<forall>w p. fst (api w p) \<noteq> OtherException"
  shows "\<exists>r w'. describe_screen api w (JObj ps) = (Inr r, w')"
proof (cases "truthy (dict_get ps (str ''prompt'') JNull)")
  case False
  then show ?thesis by (simp add: describe_screen_def)
next
  case True
  obtain out w1 where a: "api w (dict_get ps (str ''prompt'') JNull) = (out, w1)"
    by (cases "api w (dict_get ps (str ''prompt'') JNull)") auto
  with assms have "out \<noteq> OtherException"
    by (metis fst_conv)
  with True a show ?thesis
    by (cases out) (simp_all add: describe_screen_def)
qed

lemma dispatch_returns:
  assumes "\<forall>w p. fst (api w p) \<noteq> OtherException" and "well_formed_invocation tc"
  shows "\<exists>logged r w'. dispatch api w tc = (Inr (logged, r, is_shutdown tc), w')"
proof -
  from assms(2) obtain kvs where tc: "tc = JObj kvs"
    by (cases tc) (simp_all add: well_formed_invocation_def)
  let ?func = "dict_get kvs (str ''func'') JNull"
  have ne: "JStr (str ''shutdown'') \<noteq> JStr (str ''initialize'')"
    "JStr (str ''shutdown'') \<noteq> JStr (str ''describe_screen'')"
    by (simp_all add: str_def)
  show ?thesis
  proof (cases "?func = JStr (str ''initialize'')")
    case True
    with tc ne show ?thesis
      by (simp add: dispatch_def is_shutdown_def)
  next
    case ni: False
    show ?thesis
    proof (cases "?func = JStr (str ''describe_screen'')")
      case True
      from assms(2) tc obtain ps where "dict_get kvs (str ''params'') (JObj []) = JObj ps"
        by (auto simp: well_formed_invocation_def dict_get_def split: option.splits json.splits)
      moreover from describe_screen_returns [OF assms(1), of w ps] obtain r w' where
        "describe_screen api w (JObj ps) = (Inr r, w')"
        by blast
      ultimately show ?thesis
        using tc ni True ne by (simp add: dispatch_def is_shutdown_def)
    next
      case nd: False
      with tc ni show ?thesis
        by (simp add: dispatch_def is_shutdown_def)
    qed
  qed
qed

lemma for_loop_frames:
  assumes "\<forall>w p. fst (api w p) \<noteq> OtherException"
    and "\<forall>tc\<in>set calls. well_formed_invocation tc"
    and "for_loop api w calls = (evs, st, w')"
  shows "list_all2 (answers api) (served calls) (frames evs)
    \<and> st = (if \<exists>tc\<in>set calls. is_shutdown tc then Stopped else Running)"
  using assms(2,3)
proof (induction calls arbitrary: w evs st)
  case Nil
  then show ?case by simp
next
  case (Cons tc rest)
  from Cons.prems(1) have wf: "well_formed_invocation tc"
    and wfr: "\<forall>tc\<in>set rest. well_formed_invocation tc"
    by simp_all
  from dispatch_returns [OF assms(1) wf, of w] obtain logged r w1 where
    d: "dispatch api w tc = (Inr (logged, r, is_shutdown tc), w1)"
    by blast
  obtain fr where fr: "write_response r = [Wrote fr]"
    using write_response_writes [of r] by blast
  have lg: "frames logged = []"
    using d by (auto simp: dispatch_def initialize_def shutdown_def Let_def
        split: json.splits if_splits prod.splits sum.splits)
  have ans: "answers api tc fr"
    unfolding answers_def using d fr by (intro exI [of _ w]) simp
  show ?case
  proof (cases "is_shutdown tc")
    case True
    with d fr Cons.prems(2) have "evs = logged @ [Wrote fr]" and "st = Stopped"
      by simp_all
    with True lg ans show ?thesis
      by (simp add: served_Cons)
  next
    case False
    obtain evs1 st1 w2 where r1: "for_loop api w1 rest = (evs1, st1, w2)"
      by (cases "for_loop api w1 rest") auto
    with d fr False Cons.prems(2) have e: "evs = logged @ [Wrote fr] @ evs1" and s: "st = st1"
      and w: "w2 = w'"
      by simp_all
    from Cons.IH [OF wfr r1 [unfolded w]] e s False lg ans show ?thesis
      by (simp add: served_Cons)
  qed
qed

lemma served_no_shutdown:
  "\<forall>tc\<in>set calls. \<not> is_shutdown tc \<Longrightarrow> served calls = calls"
  by (induction calls) (simp_all add: served_Cons)

lemma served_eq_Nil [simp]: "served calls = [] \<longleftrightarrow> calls = []"
  by (cases calls) (simp_all add: served_Cons)

lemma served_shutdown:
  "\<exists>tc\<in>set calls. is_shutdown tc \<Longrightarrow>
   is_shutdown (last (served calls))
   \<and> length (served calls) = Suc (length (takeWhile (\<lambda>tc. \<not> is_shutdown tc) calls))"
proof (induction calls)
  case Nil
  then show ?case by simp
next
  case (Cons tc rest)
  show ?case
  proof (cases "is_shutdown tc")
    case True
    then show ?thesis by (simp add: served_Cons)
  next
    case False
    with Cons.prems have ex: "\<exists>tc\<in>set rest. is_shutdown tc"
      by simp
    then have "rest \<noteq> []"
      by auto
    with Cons.IH [OF ex] False show ?thesis
      by (simp add: served_Cons)
  qed
qed

text \<open>
  When the screen query raises nothing but a \<^verbatim>\<open>requests.RequestException\<close>, the
  frames written for a list of invocations are, in order, one answer for each
  invocation up to the first \<^verbatim>\<open>shutdown\<close>, that one included.
\<close>

lemma one_frame_per_invocation:
  assumes "dict_get kvs (str ''tool_calls'') (JArr []) = JArr calls"
    and "\<forall>tc\<in>set calls. well_formed_invocation tc"
    and "\<forall>w p. fst (api w p) \<noteq> OtherException"
    and "process_command api w (JObj kvs) = (evs, st, w')"
  shows "list_all2 (answers api) (served calls) (frames evs)
    \<and> ((\<forall>tc\<in>set calls. \<not> is_shutdown tc) \<longrightarrow>
         served calls = calls \<and> length (frames evs) = length calls \<and> st = Running)
    \<and> ((\<exists>tc\<in>set calls. is_shutdown tc) \<longrightarrow>
         is_shutdown (last (served calls))
         \<and> length (frames evs) = Suc (length (takeWhile (\<lambda>tc. \<not> is_shutdown tc) calls))
         \<and> st = Stopped)
    \<and> (calls = [] \<longrightarrow> evs = [] \<and> st = Running)"
proof -
  from assms(1,4) have loop: "for_loop api w calls = (evs, st, w')"
    by (simp add: process_command_def)
  from for_loop_frames [OF assms(3,2) loop]
  have all2: "list_all2 (answers api) (served calls) (frames evs)"
    and st: "st = (if \<exists>tc\<in>set calls. is_shutdown tc then Stopped else Running)"
    by simp_all
  from all2 have len: "length (frames evs) = length (served calls)"
    by (simp add: list_all2_lengthD)
  have none: "(\<forall>tc\<in>set calls. \<not> is_shutdown tc) \<longrightarrow>
         served calls = calls \<and> length (frames evs) = length calls \<and> st = Running"
    using len st served_no_shutdown [of calls] by auto
  have some: "(\<exists>tc\<in>set calls. is_shutdown tc) \<longrightarrow>
         is_shutdown (last (served calls))
         \<and> length (frames evs) = Suc (length (takeWhile (\<lambda>tc. \<not> is_shutdown tc) calls))
         \<and> st = Stopped"
    using len st served_shutdown [of calls] by auto
  have empty: "calls = [] \<longrightarrow> evs = [] \<and> st = Running"
    using loop by auto
  from all2 none some empty show ?thesis
    by (intro conjI)
qed

lemma one_frame_per_invocation_example:
  \<open>let calls =
         [JObj [(str ''func'', JStr (str ''initialize'')), (str ''params'', JObj [])],
          JObj [(str ''func'', JStr (str ''bogus''))],
          JObj [(str ''func'', JStr (str ''describe_screen'')),
                (str ''params'', JObj [(str ''prompt'', JStr (str ''what is this''))])],
          JObj [(str ''func'', JStr (str ''shutdown''))],
          JObj [(str ''func'', JStr (str ''initialize''))]];
       kvs = [(str ''tool_calls'', JArr calls)];
       api = (\<lambda>(w::nat) (p::json). (RequestException, Suc w));
       evs =
         [Logged InitializingPlugin,
          Wrote (bytes_of ''{"success": true, "message": "Plugin initialized successfully"}<<END>>''),
          Wrote (bytes_of ''{"success": false, "message": "Unknown function call"}<<END>>''),
          Wrote (bytes_of ''{"success": false, "message": "Failed to check Screen Description"}<<END>>''),
          Logged ShuttingDownPlugin,
          Wrote (bytes_of ''{"success": true, "message": "Plugin shutdown successfully"}<<END>>'')]
   in dict_get kvs (str ''tool_calls'') (JArr []) = JArr calls
    \<and> (\<forall>tc\<in>set calls. well_formed_invocation tc)
    \<and> (\<forall>w p. fst (api w p) \<noteq> OtherException)
    \<and> process_command api 0 (JObj kvs) = (evs, Stopped, 1)
    \<and> list_all2 (answers api) (served calls) (frames evs)
    \<and> ((\<exists>tc\<in>set calls. is_shutdown tc) \<longrightarrow>
         is_shutdown (last (served calls))
         \<and> length (frames evs) = Suc (length (takeWhile (\<lambda>tc. \<not> is_shutdown tc) calls))
         \<and> Stopped = Stopped)\<close>
  unfolding Let_def
proof -
  let ?calls = "[JObj [(str ''func'', JStr (str ''initialize'')), (str ''params'', JObj [])],
          JObj [(str ''func'', JStr (str ''bogus''))],
          JObj [(str ''func'', JStr (str ''describe_screen'')),
                (str ''params'', JObj [(str ''prompt'', JStr (str ''what is this''))])],
          JObj [(str ''func'', JStr (str ''shutdown''))],
          JObj [(str ''func'', JStr (str ''initialize''))]]"
  let ?kvs = "[(str ''tool_calls'', JArr ?calls)]"
  let ?api = "\<lambda>(w::nat) (p::json). (RequestException, Suc w)"
  let ?evs = \<open>[Logged InitializingPlugin,
          Wrote (bytes_of ''{"success": true, "message": "Plugin initialized successfully"}<<END>>''),
          Wrote (bytes_of ''{"success": false, "message": "Unknown function call"}<<END>>''),
          Wrote (bytes_of ''{"success": false, "message": "Failed to check Screen Description"}<<END>>''),
          Logged ShuttingDownPlugin,
          Wrote (bytes_of ''{"success": true, "message": "Plugin shutdown successfully"}<<END>>'')]\<close>
  have h1: "dict_get ?kvs (str ''tool_calls'') (JArr []) = JArr ?calls"
    by (simp add: dict_get_def)
  have h2: "\<forall>tc\<in>set ?calls. well_formed_invocation tc"
    by (simp add: well_formed_invocation_def str_def)
  have h3: "\<forall>w p. fst (?api w p) \<noteq> OtherException"
    by simp
  have h4: "process_command ?api 0 (JObj ?kvs) = (?evs, Stopped, 1)"
    by (simp add: process_command_def dict_get_def dispatch_def describe_screen_def Let_def
        initialize_def shutdown_def eval_response)
  note c = one_frame_per_invocation [OF h1 h2 h3 h4]
  from h1 h2 h3 h4 c [THEN conjunct1] c [THEN conjunct2, THEN conjunct2, THEN conjunct1]
  show "dict_get ?kvs (str ''tool_calls'') (JArr []) = JArr ?calls
    \<and> (\<forall>tc\<in>set ?calls. well_formed_invocation tc)
    \<and> (\<forall>w p. fst (?api w p) \<noteq> OtherException)
    \<and> process_command ?api 0 (JObj ?kvs) = (?evs, Stopped, 1)
    \<and> list_all2 (answers ?api) (served ?calls) (frames ?evs)
    \<and> ((\<exists>tc\<in>set ?calls. is_shutdown tc) \<longrightarrow>
         is_shutdown (last (served ?calls))
         \<and> length (frames ?evs) = Suc (length (takeWhile (\<lambda>tc. \<not> is_shutdown tc) ?calls))
         \<and> Stopped = Stopped)"
    by (intro conjI)
qed

subsection \<open>Reading a frame back\<close>

lemma hexval_hexdigit: "d < 16 \<Longrightarrow> hexval (hexdigit d) = Some d"
  by (simp add: hexval_def hexdigit_def)

lemma hex_digits_sum:
  assumes "n < 65536"
  shows "n div 4096 mod 16 * 4096 + n div 256 mod 16 * 256 + n div 16 mod 16 * 16 + n mod 16
    = (n::nat)"
proof -
  define a where "a = n div 16"
  define b where "b = a div 16"
  define c where "c = b div 16"
  have b256: "n div 256 = b"
    unfolding a_def b_def by (simp add: div_mult2_eq [symmetric])
  have c4096: "n div 4096 = c"
    unfolding a_def b_def c_def by (simp add: div_mult2_eq [symmetric])
  have 1: "n = a * 16 + n mod 16"
    unfolding a_def by simp
  have 2: "a = b * 16 + a mod 16"
    unfolding b_def by simp
  have 3: "b = c * 16 + b mod 16"
    unfolding c_def by simp
  have "c < 16"
    using assms c4096 by (simp add: less_mult_imp_div_less flip: c4096)
  then have 4: "c mod 16 = c"
    by simp
  have "c * 4096 + b mod 16 * 256 + a mod 16 * 16 + n mod 16 = n"
    using 1 2 3 by linarith
  then show ?thesis
    unfolding c4096 b256 4 a_def [symmetric] .
qed

lemma unhex4_hex4: "n < 65536 \<Longrightarrow> unhex4 (hex4 n) = Some n"
  using hex_digits_sum [of n] by (simp add: unhex4_def hex4_def hexval_hexdigit)

lemma push_simps [simp]:
  "push c None = None" "push c (Some (t, rest)) = Some (c # t, rest)"
  by (simp_all add: push_def)

lemma scan_literal:
  assumes "0x20 \<le> c" and "c \<noteq> 0x22" and "c \<noteq> 0x5C"
  shows "scan_string (c # t) = push c (scan_string t)"
  using assms by simp

lemma scan_short_escape:
  assumes "unescape e = Some x" and "e \<noteq> 0x75"
  shows "scan_string (0x5C # e # t) = push x (scan_string t)"
  using assms by simp

lemma scan_u4:
  assumes "unhex4 hs = Some n" and "length hs = 4"
    and "high_surrogate n \<longrightarrow> safe_after_high t"
  shows "scan_string (0x5C # 0x75 # hs @ t) = push n (scan_string t)"
proof (cases "high_surrogate n \<and> take 2 t = [0x5C, 0x75]")
  case False
  with assms(1,2) show ?thesis by auto
next
  case True
  with assms(3) obtain u2 where u2: "unhex4 (take 4 (drop 2 t)) = Some u2" "\<not> low_surrogate u2"
    by (auto simp: safe_after_high_def)
  have "drop 6 (hs @ t) = drop 2 t"
    using assms(2) by simp
  with True assms(1,2) u2 show ?thesis by simp
qed

lemma scan_u_escape:
  assumes "n < 65536" and "high_surrogate n \<longrightarrow> safe_after_high t"
  shows "scan_string (u_escape n @ t) = push n (scan_string t)"
proof -
  have "length (hex4 n) = 4"
    by (simp add: hex4_def)
  with unhex4_hex4 [OF assms(1)] assms(2) show ?thesis
    unfolding u_escape_def by (simp add: scan_u4 del: scan_string.simps)
qed

lemma scan_pair:
  assumes "high_surrogate h" and "low_surrogate l"
  shows "scan_string (u_escape h @ u_escape l @ t)
    = push (0x10000 + (h - 0xD800) * 1024 + (l - 0xDC00)) (scan_string t)"
proof -
  have h: "h < 65536" and l: "l < 65536"
    using assms by (simp_all add: high_surrogate_def low_surrogate_def)
  have lh: "length (hex4 h) = 4" "length (hex4 l) = 4"
    by (simp_all add: hex4_def)
  have "scan_string (0x5C # 0x75 # hex4 h @ 0x5C # 0x75 # hex4 l @ t)
    = push (0x10000 + (h - 0xD800) * 1024 + (l - 0xDC00)) (scan_string t)"
    using assms unhex4_hex4 [OF h] unhex4_hex4 [OF l] lh by simp
  then show ?thesis
    by (simp add: u_escape_def del: scan_string.simps)
qed

lemma safe_after_quote: "safe_after_high (0x22 # rest)"
  by (simp add: safe_after_high_def)

lemma replace_cases:
  obtains (literal) "0x20 \<le> c" "c \<le> 0x7E" "c \<noteq> 0x5C" "c \<noteq> 0x22" "replace c = [c]"
  | (short) e where "replace c = [0x5C, e]" "unescape e = Some c" "e \<noteq> 0x75"
  | (bmp) "c < 0x10000" "replace c = u_escape c"
  | (astral) "0x10000 \<le> c"
      "replace c = u_escape (0xD800 + (c - 0x10000) div 1024 mod 1024)
                   @ u_escape (0xDC00 + (c - 0x10000) mod 1024)"
proof (cases "0x20 \<le> c \<and> c \<le> 0x7E \<and> c \<noteq> 0x5C \<and> c \<noteq> 0x22")
  case True
  then show ?thesis by (intro literal) (simp_all add: replace_def)
next
  case nl: False
  show ?thesis
  proof (cases "c = 0x5C \<or> c = 0x22 \<or> c = 0x08 \<or> c = 0x0C \<or> c = 0x0A \<or> c = 0x0D \<or> c = 0x09")
    case True
    then consider "c = 0x5C" | "c = 0x22" | "c = 0x08" | "c = 0x0C" | "c = 0x0A" | "c = 0x0D"
      | "c = 0x09"
      by blast
    then show ?thesis
    proof cases
      case 1
      then have "replace c = [0x5C, 0x5C]" "unescape 0x5C = Some c" "(0x5C::nat) \<noteq> 0x75"
        by (simp_all add: replace_def unescape_def)
      then show ?thesis by (rule short)
    next
      case 2
      then have "replace c = [0x5C, 0x22]" "unescape 0x22 = Some c" "(0x22::nat) \<noteq> 0x75"
        by (simp_all add: replace_def unescape_def)
      then show ?thesis by (rule short)
    next
      case 3
      then have "replace c = [0x5C, 0x62]" "unescape 0x62 = Some c" "(0x62::nat) \<noteq> 0x75"
        by (simp_all add: replace_def unescape_def)
      then show ?thesis by (rule short)
    next
      case 4
      then have "replace c = [0x5C, 0x66]" "unescape 0x66 = Some c" "(0x66::nat) \<noteq> 0x75"
        by (simp_all add: replace_def unescape_def)
      then show ?thesis by (rule short)
    next
      case 5
      then have "replace c = [0x5C, 0x6E]" "unescape 0x6E = Some c" "(0x6E::nat) \<noteq> 0x75"
        by (simp_all add: replace_def unescape_def)
      then show ?thesis by (rule short)
    next
      case 6
      then have "replace c = [0x5C, 0x72]" "unescape 0x72 = Some c" "(0x72::nat) \<noteq> 0x75"
        by (simp_all add: replace_def unescape_def)
      then show ?thesis by (rule short)
    next
      case 7
      then have "replace c = [0x5C, 0x74]" "unescape 0x74 = Some c" "(0x74::nat) \<noteq> 0x75"
        by (simp_all add: replace_def unescape_def)
      then show ?thesis by (rule short)
    qed
  next
    case ns: False
    show ?thesis
    proof (cases "c < 0x10000")
      case True
      with nl ns show ?thesis by (intro bmp) (auto simp: replace_def)
    next
      case False
      with nl ns show ?thesis by (intro astral) (auto simp: replace_def Let_def)
    qed
  qed
qed

lemma astral_surrogates:
  assumes "0x10000 \<le> c" and "c < 0x110000"
  shows "high_surrogate (0xD800 + (c - 0x10000) div 1024 mod 1024)"
    and "low_surrogate (0xDC00 + (c - 0x10000) mod 1024)"
    and "0x10000 + (0xD800 + (c - 0x10000) div 1024 mod 1024 - 0xD800) * 1024
           + (0xDC00 + (c - 0x10000) mod 1024 - 0xDC00) = c"
proof -
  define n where "n = c - 0x10000"
  have n: "n < 1024 * 1024" and c: "c = 0x10000 + n"
    using assms by (simp_all add: n_def)
  have d: "n div 1024 < 1024"
    using n by (simp add: less_mult_imp_div_less)
  then have m: "n div 1024 mod 1024 = n div 1024"
    by simp
  have r: "n mod 1024 < 1024"
    by simp
  show "high_surrogate (0xD800 + (c - 0x10000) div 1024 mod 1024)"
    unfolding n_def [symmetric] m using d by (simp add: high_surrogate_def)
  show "low_surrogate (0xDC00 + (c - 0x10000) mod 1024)"
    unfolding n_def [symmetric] using r by (simp add: low_surrogate_def)
  have "n div 1024 * 1024 + n mod 1024 = n"
    by simp
  then show "0x10000 + (0xD800 + (c - 0x10000) div 1024 mod 1024 - 0xD800) * 1024
           + (0xDC00 + (c - 0x10000) mod 1024 - 0xDC00) = c"
    unfolding n_def [symmetric] m using c by simp
qed

lemma safe_after_replace:
  assumes "b < 0x110000" and "\<not> low_surrogate b"
  shows "safe_after_high (replace b @ t)"
proof (cases b rule: replace_cases)
  case literal
  then show ?thesis by (simp add: safe_after_high_def)
next
  case (short e)
  then show ?thesis by (simp add: safe_after_high_def)
next
  case bmp
  have "length (hex4 b) = 4"
    by (simp add: hex4_def)
  with bmp assms(2) unhex4_hex4 [of b] show ?thesis
    by (simp add: safe_after_high_def u_escape_def)
next
  case astral
  let ?h = "0xD800 + (b - 0x10000) div 1024 mod 1024"
  have h: "high_surrogate ?h"
    using astral(1) assms(1) by (rule astral_surrogates)
  then have "?h < 65536" and "\<not> low_surrogate ?h"
    by (simp_all add: high_surrogate_def low_surrogate_def)
  moreover have "length (hex4 ?h) = 4"
    by (simp add: hex4_def)
  ultimately show ?thesis
    using astral(2) unhex4_hex4 [of ?h]
    by (simp add: safe_after_high_def u_escape_def)
qed

lemma scan_replace:
  assumes "c < 0x110000" and "high_surrogate c \<longrightarrow> safe_after_high t"
  shows "scan_string (replace c @ t) = push c (scan_string t)"
proof (cases c rule: replace_cases)
  case literal
  then show ?thesis by (simp add: scan_literal del: scan_string.simps)
next
  case (short e)
  then show ?thesis by (simp add: scan_short_escape del: scan_string.simps)
next
  case bmp
  with assms(2) show ?thesis by (simp add: scan_u_escape del: scan_string.simps)
next
  case astral
  note s = astral_surrogates [OF astral(1) assms(1)]
  show ?thesis
    unfolding astral(2) append_assoc scan_pair [OF s(1,2)] s(3) ..
qed

lemma scan_encoded:
  assumes "round_trip_text m"
  shows "scan_string (concat (map replace m) @ 0x22 # rest) = Some (m, rest)"
  using assms
proof (induction m)
  case Nil
  then show ?case by simp
next
  case (Cons c m)
  from Cons.prems have c: "c < 0x110000" and rt: "round_trip_text m"
    by (cases m; simp add: round_trip_text_def)+
  have safe: "high_surrogate c \<longrightarrow> safe_after_high (concat (map replace m) @ 0x22 # rest)"
  proof (cases m)
    case Nil
    then show ?thesis by (simp add: safe_after_quote)
  next
    case (Cons b m')
    with Cons.prems show ?thesis
      by (auto simp: round_trip_text_def safe_after_replace)
  qed
  have "scan_string (concat (map replace (c # m)) @ 0x22 # rest)
      = scan_string (replace c @ (concat (map replace m) @ 0x22 # rest))"
    by simp
  also have "\<dots> = push c (scan_string (concat (map replace m) @ 0x22 # rest))"
    using c safe by (rule scan_replace)
  also have "\<dots> = Some (c # m, rest)"
    using Cons.IH [OF rt] by simp
  finally show ?case .
qed

declare parse_members.simps [simp del]

lemma skip_ws_simps [simp]:
  "skip_ws [] = []" "skip_ws (c # s) = (if is_ws c then skip_ws s else c # s)"
  by (simp_all add: skip_ws_def)

lemma round_trip_success: "round_trip_text (str ''success'')"
  by (simp add: round_trip_text_def str_def high_surrogate_def)

lemma round_trip_message: "round_trip_text (str ''message'')"
  by (simp add: round_trip_text_def str_def high_surrogate_def)

lemma parse_value_string:
  assumes "round_trip_text m"
  shows "parse_value (encode_basestring_ascii m @ rest) = Some (JStr m, rest)"
  using scan_encoded [OF assms, of rest]
  by (simp add: parse_value_def encode_basestring_ascii_def)

lemma parse_value_bool:
  "parse_value ((if b then str ''true'' else str ''false'') @ rest) = Some (JBool b, rest)"
  by (simp add: parse_value_def str_def)

lemma parse_members_message:
  assumes "round_trip_text m"
  shows "parse_members (encode_basestring_ascii (str ''message'') @ str '': ''
           @ encode_basestring_ascii m @ str ''}'' @ rest)
         = Some ([(str ''message'', JStr m)], rest)"
proof -
  let ?after_key = "str '': '' @ encode_basestring_ascii m @ str ''}'' @ rest"
  have key: "scan_string (concat (map replace (str ''message'')) @ 0x22 # ?after_key)
      = Some (str ''message'', ?after_key)"
    using round_trip_message by (rule scan_encoded)
  have colon: "skip_ws ?after_key = 0x3A # 0x20 # encode_basestring_ascii m @ str ''}'' @ rest"
    by (simp add: str_def is_ws_def)
  have quote: "skip_ws (0x20 # encode_basestring_ascii m @ str ''}'' @ rest)
      = encode_basestring_ascii m @ str ''}'' @ rest"
    by (simp add: is_ws_def encode_basestring_ascii_def)
  have val: "parse_value (encode_basestring_ascii m @ str ''}'' @ rest)
      = Some (JStr m, str ''}'' @ rest)"
    using assms by (rule parse_value_string)
  have brace: "skip_ws (str ''}'' @ rest) = 0x7D # rest"
    by (simp add: str_def is_ws_def)
  have "parse_members (0x22 # concat (map replace (str ''message'')) @ 0x22 # ?after_key)
      = Some ([(str ''message'', JStr m)], rest)"
    by (subst parse_members.simps) (simp add: key colon quote val brace del: skip_ws_simps)
  then show ?thesis
    by (simp add: encode_basestring_ascii_def)
qed

lemma parse_members_success:
  assumes "parse_members members = Some (kvs, rest)" and "skip_ws members = members"
  shows "parse_members (encode_basestring_ascii (str ''success'') @ str '': ''
           @ (if b then str ''true'' else str ''false'') @ str '', '' @ members)
         = Some ((str ''success'', JBool b) # kvs, rest)"
proof -
  let ?v = "(if b then str ''true'' else str ''false'')"
  let ?after_key = "str '': '' @ ?v @ str '', '' @ members"
  have key: "scan_string (concat (map replace (str ''success'')) @ 0x22 # ?after_key)
      = Some (str ''success'', ?after_key)"
    using round_trip_success by (rule scan_encoded)
  have colon: "skip_ws ?after_key = 0x3A # 0x20 # ?v @ str '', '' @ members"
    by (simp add: str_def is_ws_def)
  have sp: "skip_ws (0x20 # ?v @ str '', '' @ members) = ?v @ str '', '' @ members"
    by (simp add: is_ws_def str_def)
  have val: "parse_value (?v @ str '', '' @ members) = Some (JBool b, str '', '' @ members)"
    by (rule parse_value_bool)
  have comma: "skip_ws (str '', '' @ members) = 0x2C # 0x20 # members"
    by (simp add: str_def is_ws_def)
  have sp2: "skip_ws (0x20 # members) = members"
    using assms(2) by (simp add: is_ws_def)
  have "parse_members (0x22 # concat (map replace (str ''success'')) @ 0x22 # ?after_key)
      = Some ((str ''success'', JBool b) # kvs, rest)"
    by (subst parse_members.simps)
       (simp add: key colon sp val comma sp2 assms(1) del: skip_ws_simps)
  then show ?thesis
    by (simp add: encode_basestring_ascii_def)
qed

lemma parse_members_success_only:
  "parse_members (encode_basestring_ascii (str ''success'') @ str '': ''
           @ (if b then str ''true'' else str ''false'') @ str ''}'' @ rest)
         = Some ([(str ''success'', JBool b)], rest)"
proof -
  let ?v = "(if b then str ''true'' else str ''false'')"
  let ?after_key = "str '': '' @ ?v @ str ''}'' @ rest"
  have key: "scan_string (concat (map replace (str ''success'')) @ 0x22 # ?after_key)
      = Some (str ''success'', ?after_key)"
    using round_trip_success by (rule scan_encoded)
  have colon: "skip_ws ?after_key = 0x3A # 0x20 # ?v @ str ''}'' @ rest"
    by (simp add: str_def is_ws_def)
  have sp: "skip_ws (0x20 # ?v @ str ''}'' @ rest) = ?v @ str ''}'' @ rest"
    by (simp add: is_ws_def str_def)
  have val: "parse_value (?v @ str ''}'' @ rest) = Some (JBool b, str ''}'' @ rest)"
    by (rule parse_value_bool)
  have brace: "skip_ws (str ''}'' @ rest) = 0x7D # rest"
    by (simp add: str_def is_ws_def)
  have "parse_members (0x22 # concat (map replace (str ''success'')) @ 0x22 # ?after_key)
      = Some ([(str ''success'', JBool b)], rest)"
    by (subst parse_members.simps) (simp add: key colon sp val brace del: skip_ws_simps)
  then show ?thesis
    by (simp add: encode_basestring_ascii_def)
qed

lemma parse_object_members:
  assumes "parse_members (encode_basestring_ascii k @ t) = Some (kvs, [])"
  shows "parse_object (str ''{'' @ encode_basestring_ascii k @ t) = Some (JObj kvs)"
proof -
  have "encode_basestring_ascii k @ t = 0x22 # concat (map replace k) @ 0x22 # t"
    by (simp add: encode_basestring_ascii_def)
  with assms show ?thesis
    by (simp add: parse_object_def str_def is_ws_def)
qed

lemma parse_object_json_dumps:
  assumes "case message r of None \<Rightarrow> True | Some m \<Rightarrow> round_trip_text m"
  shows "parse_object (json_dumps r) =
     Some (JObj ((str ''success'', JBool (success r))
                 # (case message r of None \<Rightarrow> [] | Some m \<Rightarrow> [(str ''message'', JStr m)])))"
proof (cases "message r")
  case None
  have "parse_members (encode_basestring_ascii (str ''success'') @ str '': ''
           @ (if success r then str ''true'' else str ''false'') @ str ''}'' @ [])
         = Some ([(str ''success'', JBool (success r))], [])"
    by (rule parse_members_success_only)
  then have "parse_object (str ''{'' @ encode_basestring_ascii (str ''success'') @ str '': ''
           @ (if success r then str ''true'' else str ''false'') @ str ''}'' @ [])
         = Some (JObj [(str ''success'', JBool (success r))])"
    by (rule parse_object_members)
  with None show ?thesis
    by (simp add: json_dumps_def)
next
  case (Some m)
  with assms have rt: "round_trip_text m"
    by simp
  let ?members = "encode_basestring_ascii (str ''message'') @ str '': ''
           @ encode_basestring_ascii m @ str ''}'' @ []"
  have m: "parse_members ?members = Some ([(str ''message'', JStr m)], [])"
    using rt by (rule parse_members_message)
  have sk: "skip_ws ?members = ?members"
    by (simp add: encode_basestring_ascii_def is_ws_def)
  have "parse_members (encode_basestring_ascii (str ''success'') @ str '': ''
           @ (if success r then str ''true'' else str ''false'') @ str '', '' @ ?members)
         = Some ((str ''success'', JBool (success r)) # [(str ''message'', JStr m)], [])"
    using m sk by (rule parse_members_success)
  then have "parse_object (str ''{'' @ encode_basestring_ascii (str ''success'') @ str '': ''
           @ (if success r then str ''true'' else str ''false'') @ str '', '' @ ?members)
         = Some (JObj ((str ''success'', JBool (success r)) # [(str ''message'', JStr m)]))"
    by (rule parse_object_members)
  with Some show ?thesis
    by (simp add: json_dumps_def)
qed

lemma result_of_json_response:
  "result_of_json (JObj ((str ''success'', JBool (success r))
       # (case message r of None \<Rightarrow> [] | Some m \<Rightarrow> [(str ''message'', JStr m)])))
   = Some (r :: response)"
proof -
  have "str ''success'' \<noteq> str ''message''"
    by (simp add: str_def)
  then show ?thesis
    by (cases "message r") (auto simp: result_of_json_def)
qed

lemma strip_terminator_frame:
  "strip_terminator (map of_nat (s @ str ''<<END>>'')) = Some (map of_nat s)"
proof -
  have e: "map of_nat (str ''<<END>>'') = bytes_of ''<<END>>''"
    by (simp add: str_def bytes_of_def)
  have l: "length (bytes_of ''<<END>>'') = 7"
    by (simp add: bytes_of_def)
  have "strip_terminator (map of_nat s @ bytes_of ''<<END>>'') = Some (map of_nat s)"
    unfolding strip_terminator_def Let_def by (simp add: l)
  then show ?thesis
    by (simp add: e)
qed

lemma utf8_decode_of_ascii:
  "\<forall>x\<in>set s. x < 128 \<Longrightarrow> utf8_decode (map of_nat s) = Some s"
proof (induction s)
  case Nil
  then show ?case by simp
next
  case (Cons x s)
  then have x: "x < 128"
    by simp
  then have u: "unat (of_nat x :: byte) = x"
    by (simp add: unat_of_nat)
  then have "(of_nat x :: byte) < 0x80"
    using x by (simp add: word_less_nat_alt)
  with u Cons show ?case
    by simp
qed

lemma decode_frame_written:
  "decode_frame (map of_nat (json_dumps r @ str ''<<END>>'')) =
     (case parse_object (json_dumps r) of None \<Rightarrow> None | Some v \<Rightarrow> result_of_json v)"
  unfolding decode_frame_def strip_terminator_frame
  using utf8_decode_of_ascii [OF json_dumps_ascii, of r] by simp

lemma split_pair_not_read_back:
  "decode_frame (map of_nat (json_dumps \<lparr>success = True, message = Some [0xD83D, 0xDE00]\<rparr>
       @ str ''<<END>>''))
   = Some \<lparr>success = True, message = Some [0x1F600]\<rparr>"
  unfolding decode_frame_written
  by (simp add: json_dumps_def encode_basestring_ascii_def replace_def u_escape_def hex4_def
      hexdigit_def str_def parse_object_def is_ws_def parse_members.simps parse_value_def
      unhex4_def hexval_def high_surrogate_def low_surrogate_def result_of_json_def unescape_def)

section \<open>The claims\<close>

text \<open>
  C3, at the response of \<^verbatim>\<open>initialize\<close>. The frame written is the serialization
  with the default separators of \<^verbatim>\<open>json.dumps\<close>, a space after the colon and after
  the comma, followed at once by \<^verbatim>\<open><<END>>\<close>; it is not the compact frame that
  the docstring of \<^verbatim>\<open>write_response\<close> shows.
\<close>

theorem C3_frame_not_compact:
  \<open>write_response (snd initialize) =
     [Wrote (bytes_of ''{"success": true, "message": "Plugin initialized successfully"}<<END>>'')]
   \<and> write_response (snd initialize) \<noteq>
     [Wrote (bytes_of ''{"success":true,"message":"Plugin initialized successfully"}<<END>>'')]\<close>
  by (simp add: initialize_def eval_response)

text \<open>
  C5. A tool call whose \<^verbatim>\<open>func\<close> is none of \<^verbatim>\<open>initialize\<close>, \<^verbatim>\<open>describe_screen\<close> and
  \<^verbatim>\<open>shutdown\<close> gets the response with \<^verbatim>\<open>success\<close> false and the message
  \<^verbatim>\<open>Unknown function call\<close>; dispatch raises nothing, the frame of that response
  is written and the loop goes on with the tool calls that follow.
\<close>

theorem C5_unknown_function:
  assumes "dict_get kvs (str ''func'') JNull \<notin>
     {JStr (str ''initialize''), JStr (str ''describe_screen''), JStr (str ''shutdown'')}"
  shows \<open>dispatch api w (JObj kvs) =
       (Inr ([], \<lparr>success = False, message = Some (str ''Unknown function call'')\<rparr>, False), w)
     \<and> for_loop api w (JObj kvs # rest) =
       (case for_loop api w rest of
          (evs, st, w') \<Rightarrow>
            (Wrote (bytes_of ''{"success": false, "message": "Unknown function call"}<<END>>'') # evs,
             st, w'))\<close>
  using assms dispatch_unknown [of kvs api w] for_loop_unknown [of kvs api w rest] by simp

theorem C5_unknown_function_witness:
  \<open>dict_get [(str ''func'', JStr (str ''bogus'')), (str ''params'', JObj [])] (str ''func'') JNull \<notin>
     {JStr (str ''initialize''), JStr (str ''describe_screen''), JStr (str ''shutdown'')}
   \<and> dispatch (\<lambda>w p. (RequestException, w)) (0::nat)
        (JObj [(str ''func'', JStr (str ''bogus'')), (str ''params'', JObj [])]) =
       (Inr ([], \<lparr>success = False, message = Some (str ''Unknown function call'')\<rparr>, False), 0)
   \<and> for_loop (\<lambda>w p. (RequestException, w)) (0::nat)
        [JObj [(str ''func'', JStr (str ''bogus'')), (str ''params'', JObj [])]] =
       ([Wrote (bytes_of ''{"success": false, "message": "Unknown function call"}<<END>>'')],
        Running, 0)\<close>
proof -
  have h: "dict_get [(str ''func'', JStr (str ''bogus'')), (str ''params'', JObj [])] (str ''func'') JNull \<notin>
     {JStr (str ''initialize''), JStr (str ''describe_screen''), JStr (str ''shutdown'')}"
    by (simp add: dict_get_def str_def)
  show ?thesis
    using h C5_unknown_function [OF h, of "\<lambda>w p. (RequestException, w)" "0::nat" "[]"]
    by (simp del: for_loop.simps(2))
qed

text \<open>
  C10. A tool call with no \<^verbatim>\<open>func\<close> key, or whose \<^verbatim>\<open>func\<close> is \<^verbatim>\<open>null\<close>, is not
  skipped and raises nothing: it takes the branch of the unknown function, the
  frame of \<^verbatim>\<open>Unknown function call\<close> is written, and the loop goes on with the
  tool calls that follow.
\<close>

theorem C10_missing_func:
  assumes "map_of kvs (str ''func'') = None \<or> map_of kvs (str ''func'') = Some JNull"
  shows \<open>dispatch api w (JObj kvs) =
       (Inr ([], \<lparr>success = False, message = Some (str ''Unknown function call'')\<rparr>, False), w)
     \<and> for_loop api w (JObj kvs # rest) =
       (case for_loop api w rest of
          (evs, st, w') \<Rightarrow>
            (Wrote (bytes_of ''{"success": false, "message": "Unknown function call"}<<END>>'') # evs,
             st, w'))\<close>
proof -
  have "dict_get kvs (str ''func'') JNull = JNull"
    using assms by (auto simp: dict_get_def)
  then show ?thesis
    using dispatch_unknown [of kvs api w] for_loop_unknown [of kvs api w rest] by simp
qed

theorem C10_missing_func_witness:
  \<open>(map_of [(str ''params'', JObj [])] (str ''func'') = None
      \<or> map_of [(str ''params'', JObj [])] (str ''func'') = Some JNull)
   \<and> dispatch (\<lambda>w p. (RequestException, w)) (0::nat) (JObj [(str ''params'', JObj [])]) =
       (Inr ([], \<lparr>success = False, message = Some (str ''Unknown function call'')\<rparr>, False), 0)
   \<and> for_loop (\<lambda>w p. (RequestException, w)) (0::nat)
        [JObj [(str ''params'', JObj [])], JObj [(str ''func'', JNull)]] =
       ([Wrote (bytes_of ''{"success": false, "message": "Unknown function call"}<<END>>''),
         Wrote (bytes_of ''{"success": false, "message": "Unknown function call"}<<END>>'')],
        Running, 0)\<close>
proof -
  have h: "map_of [(str ''params'', JObj [])] (str ''func'') = None
      \<or> map_of [(str ''params'', JObj [])] (str ''func'') = Some JNull"
    by (simp add: str_def)
  have h': "map_of [(str ''func'', JNull)] (str ''func'') = None
      \<or> map_of [(str ''func'', JNull)] (str ''func'') = Some JNull"
    by simp
  show ?thesis
    using h C10_missing_func [OF h, of "\<lambda>w p. (RequestException, w)" "0::nat" "[JObj [(str ''func'', JNull)]]"]
      C10_missing_func [OF h', of "\<lambda>w p. (RequestException, w)" "0::nat" "[]"]
    by (simp del: for_loop.simps(2))
qed



text \<open>
  C9. A command with no \<^verbatim>\<open>tool_calls\<close> key is a command with no invocation: nothing is
  written and the loop goes on with the next read. A tool call with no \<^verbatim>\<open>params\<close>
  key is dispatched like the same tool call with \<^verbatim>\<open>params\<close> the empty map; the
  handler that takes parameters, \<^verbatim>\<open>describe_screen\<close>, then finds no prompt.
\<close>

theorem C9_defaults:
  "(map_of kvs (str ''tool_calls'') = None \<longrightarrow>
      process_command api w (JObj kvs) = ([], Running, w)
      \<and> (read_command loads rs = (Some (JObj kvs), logged, rs') \<longrightarrow>
           lifecycle loads api w rs =
             (case lifecycle loads api w rs' of
                (evs, st, w') \<Rightarrow> (map Logged logged @ evs, st, w'))))
   \<and> (map_of tc (str ''params'') = None \<longrightarrow>
      dispatch api w (JObj tc) = dispatch api w (JObj (tc @ [(str ''params'', JObj [])]))
      \<and> (dict_get tc (str ''func'') JNull = JStr (str ''describe_screen'') \<longrightarrow>
           dispatch api w (JObj tc) =
             (Inr ([], \<lparr>success = False,
                         message = Some (str ''Missing required parameter: prompt'')\<rparr>,
                   False), w)))"
  using process_command_no_tool_calls [of kvs api w]
    lifecycle_no_tool_calls [of kvs loads rs logged rs' api w]
    dispatch_params_default [of tc api w]
    dispatch_describe_screen_no_params [of tc api w]
  by blast

theorem C9_defaults_witness:
  \<open>map_of [] (str ''tool_calls'') = (None :: json option)
   \<and> read_command (\<lambda>t. if t = str ''{}'' then Decoded (JObj []) else JSONDecodeError)
        [ReadOk (bytes_of ''{}'')] = (Some (JObj []), [RawInput (str ''{}'')], [])
   \<and> map_of [(str ''func'', JStr (str ''describe_screen''))] (str ''params'') = None
   \<and> dict_get [(str ''func'', JStr (str ''describe_screen''))] (str ''func'') JNull
        = JStr (str ''describe_screen'')
   \<and> process_command (\<lambda>w p. (Output (str ''a desk''), Suc w)) (0::nat) (JObj []) = ([], Running, 0)
   \<and> lifecycle (\<lambda>t. if t = str ''{}'' then Decoded (JObj []) else JSONDecodeError)
        (\<lambda>w p. (Output (str ''a desk''), Suc w)) (0::nat) [ReadOk (bytes_of ''{}'')]
        = ([Logged (RawInput (str ''{}''))], Running, 0)
   \<and> dispatch (\<lambda>w p. (Output (str ''a desk''), Suc w)) (0::nat)
        (JObj [(str ''func'', JStr (str ''describe_screen''))])
        = (Inr ([], \<lparr>success = False,
                      message = Some (str ''Missing required parameter: prompt'')\<rparr>,
                False), 0)\<close>
proof -
  let ?loads = "\<lambda>t. if t = str ''{}'' then Decoded (JObj []) else JSONDecodeError"
  let ?api = "\<lambda>(w::nat) (p::json). (Output (str ''a desk''), Suc w)"
  have h1: "map_of [] (str ''tool_calls'') = (None :: json option)"
    by simp
  have decoded: "map unat (bytes_of ''{}'') = str ''{}''"
    by (simp add: bytes_of_def str_def)
  have h2: "read_command ?loads [ReadOk (bytes_of ''{}'')]
      = (Some (JObj []), [RawInput (str ''{}'')], [])"
    using read_command_ascii [of "bytes_of ''{}''" ?loads "JObj []" "[]"] unfolding decoded
    by (simp add: bytes_of_def BUFFER_SIZE_def)
  have h3: "map_of [(str ''func'', JStr (str ''describe_screen''))] (str ''params'') = None"
    by (simp add: str_def)
  have h4: "dict_get [(str ''func'', JStr (str ''describe_screen''))] (str ''func'') JNull
        = JStr (str ''describe_screen'')"
    by (simp add: dict_get_def)
  note c9 = C9_defaults [of "[]" ?api 0 ?loads "[ReadOk (bytes_of ''{}'')]"
      "[RawInput (str ''{}'')]" "[]" "[(str ''func'', JStr (str ''describe_screen''))]"]
  from c9 h1 have a: "process_command ?api 0 (JObj []) = ([], Running, 0)"
    by blast
  from c9 h1 h2 have "lifecycle ?loads ?api 0 [ReadOk (bytes_of ''{}'')] =
      (case lifecycle ?loads ?api 0 [] of
         (evs, st, w') \<Rightarrow> (map Logged [RawInput (str ''{}'')] @ evs, st, w'))"
    by blast
  then have b: "lifecycle ?loads ?api 0 [ReadOk (bytes_of ''{}'')]
      = ([Logged (RawInput (str ''{}''))], Running, 0)"
    by (simp add: lifecycle_nil)
  from c9 h3 h4 have c: "dispatch ?api 0 (JObj [(str ''func'', JStr (str ''describe_screen''))])
        = (Inr ([], \<lparr>success = False,
                      message = Some (str ''Missing required parameter: prompt'')\<rparr>,
                False), 0)"
    by blast
  from h1 h2 h3 h4 a b c show ?thesis
    by (intro conjI)
qed

text \<open>
  C6. When a read fails, be it that \<^verbatim>\<open>ReadFile\<close> fails or that the text read is not
  valid JSON, the round of the loop only logs (an error among the records, no
  frame written) and the loop goes on with the reads that are left; with none left
  it is still running.
\<close>

theorem C6_failed_read:
  assumes "read_chunks rs [] = (res, rs')"
    and "res = ReadError
       \<or> (\<exists>chunks. res = Chunks chunks \<and> loads (concat chunks) = JSONDecodeError)"
  shows "\<exists>logged.
      lifecycle loads api w rs =
        (case lifecycle loads api w rs' of
           (evs, st, w') \<Rightarrow> (map Logged logged @ evs, st, w'))
      \<and> (rs' = [] \<longrightarrow> lifecycle loads api w rs = (map Logged logged, Running, w))
      \<and> frames (map Logged logged) = []
      \<and> (\<exists>e\<in>set logged. level_of e = ERROR)"
proof -
  from assms obtain logged where rc: "read_command loads rs = (Some JNull, logged, rs')"
    using read_command_read_error [of rs rs' loads] read_command_invalid_json [of rs _ rs' loads]
    by blast
  have "level_of ErrorReadingCommand = ERROR"
    by simp
  then have "\<exists>e\<in>set (logged @ [ErrorReadingCommand]). level_of e = ERROR"
    by simp
  moreover have "frames (map Logged (logged @ [ErrorReadingCommand])) = []"
    by (rule frames_Logged)
  ultimately show ?thesis
    using lifecycle_failed_read [OF rc, of api w]
    by (intro exI [of _ "logged @ [ErrorReadingCommand]"] conjI)
qed

theorem C6_failed_read_witness:
  \<open>read_chunks [ReadFailed] [] = (ReadError, [])
   \<and> (ReadError = ReadError
      \<or> (\<exists>chunks. ReadError = Chunks chunks
            \<and> (\<lambda>t. JSONDecodeError) (concat chunks) = JSONDecodeError))
   \<and> (\<exists>logged.
        lifecycle (\<lambda>t. JSONDecodeError) (\<lambda>w p. (RequestException, w)) (0::nat) [ReadFailed] =
          (case lifecycle (\<lambda>t. JSONDecodeError) (\<lambda>w p. (RequestException, w)) (0::nat) [] of
             (evs, st, w') \<Rightarrow> (map Logged logged @ evs, st, w'))
        \<and> ([] = ([] :: readfile list) \<longrightarrow>
             lifecycle (\<lambda>t. JSONDecodeError) (\<lambda>w p. (RequestException, w)) (0::nat) [ReadFailed]
               = (map Logged logged, Running, 0))
        \<and> frames (map Logged logged) = []
        \<and> (\<exists>e\<in>set logged. level_of e = ERROR))
   \<and> read_chunks [ReadOk (bytes_of ''{oops'')] [] = (Chunks [str ''{oops''], [])
   \<and> (Chunks [str ''{oops''] = ReadError
      \<or> (\<exists>chunks. Chunks [str ''{oops''] = Chunks chunks
            \<and> (\<lambda>t. JSONDecodeError) (concat chunks) = JSONDecodeError))
   \<and> (\<exists>logged.
        lifecycle (\<lambda>t. JSONDecodeError) (\<lambda>w p. (RequestException, w)) (0::nat)
            [ReadOk (bytes_of ''{oops'')] =
          (case lifecycle (\<lambda>t. JSONDecodeError) (\<lambda>w p. (RequestException, w)) (0::nat) [] of
             (evs, st, w') \<Rightarrow> (map Logged logged @ evs, st, w'))
        \<and> ([] = ([] :: readfile list) \<longrightarrow>
             lifecycle (\<lambda>t. JSONDecodeError) (\<lambda>w p. (RequestException, w)) (0::nat)
                 [ReadOk (bytes_of ''{oops'')]
               = (map Logged logged, Running, 0))
        \<and> frames (map Logged logged) = []
        \<and> (\<exists>e\<in>set logged. level_of e = ERROR))\<close>
proof -
  let ?loads = "\<lambda>t::pystr. JSONDecodeError"
  let ?api = "\<lambda>(w::nat) (p::json). (RequestException, w)"
  have a1: "read_chunks [ReadFailed] [] = (ReadError, [])"
    by simp
  have a2: "ReadError = ReadError
      \<or> (\<exists>chunks. ReadError = Chunks chunks \<and> ?loads (concat chunks) = JSONDecodeError)"
    by simp
  have b1: "read_chunks [ReadOk (bytes_of ''{oops'')] [] = (Chunks [str ''{oops''], [])"
    using read_chunks_ascii_short [of "bytes_of ''{oops''" "[]" "[]"]
    by (simp add: bytes_of_def str_def BUFFER_SIZE_def)
  have b2: "Chunks [str ''{oops''] = ReadError
      \<or> (\<exists>chunks. Chunks [str ''{oops''] = Chunks chunks
            \<and> ?loads (concat chunks) = JSONDecodeError)"
    by simp
  from a1 a2 C6_failed_read [OF a1 a2, of ?api 0] b1 b2 C6_failed_read [OF b1 b2, of ?api 0]
  show ?thesis
    by (intro conjI)
qed

text \<open>
  C7, at a read that returns the four bytes of a JSON string of one character,
  U+00E9, which UTF-8 encodes in the two bytes \<^verbatim>\<open>C3 A9\<close>. The
  chunk is cut out of the decoded buffer by the number of bytes read, not of
  characters: the text handed to \<^verbatim>\<open>json.loads\<close> is the decoded chunk followed by a
  NUL character, and a decoder that accepts the message refuses that text.
\<close>

theorem C7_chunk_cut_after_decoding:
  "utf8_decode [0x22, 0xC3, 0xA9, 0x22] = Some [0x22, 0xE9, 0x22]
   \<and> read_chunks [ReadOk [0x22, 0xC3, 0xA9, 0x22]] [] = (Chunks [[0x22, 0xE9, 0x22, 0]], [])
   \<and> read_command
        (\<lambda>t. if t = [0x22, 0xE9, 0x22] then Decoded (JStr [0xE9]) else JSONDecodeError)
        [ReadOk [0x22, 0xC3, 0xA9, 0x22]]
      = (Some JNull,
         [RawInput [0x22, 0xE9, 0x22, 0], InvalidJSON [0x22, 0xE9, 0x22, 0], JSONDecodingFailed],
         [])"
  by (simp add: read_command_def Let_def BUFFER_SIZE_def cont_def low6_def utf8_decode_zeros)

text \<open>
  C2, at three inputs: the text \<^verbatim>\<open>[]\<close>, a JSON value that is no object; a
  \<^verbatim>\<open>tool_calls\<close> that is the number 5; a tool call that is the number 1. In each
  case an exception leaves \<^verbatim>\<open>main\<close>, with no \<^verbatim>\<open>shutdown\<close> received.
\<close>

theorem C2_unhandled_faults:
  \<open>main (\<lambda>t. if t = str ''[]'' then Decoded (JArr []) else JSONDecodeError)
        (\<lambda>w p. (RequestException, w)) (0::nat) [ReadOk (bytes_of ''[]'')]
     = ([Logged PluginStarted, Logged (RawInput (str ''[]''))], Crashed AttributeError, 0)
   \<and> main (\<lambda>t. if t = str ''{"tool_calls": 5}''
                 then Decoded (JObj [(str ''tool_calls'', JInt 5)]) else JSONDecodeError)
        (\<lambda>w p. (RequestException, w)) (0::nat) [ReadOk (bytes_of ''{"tool_calls": 5}'')]
     = ([Logged PluginStarted, Logged (RawInput (str ''{"tool_calls": 5}''))],
        Crashed TypeError, 0)
   \<and> main (\<lambda>t. if t = str ''{"tool_calls": [1]}''
                 then Decoded (JObj [(str ''tool_calls'', JArr [JInt 1])]) else JSONDecodeError)
        (\<lambda>w p. (RequestException, w)) (0::nat) [ReadOk (bytes_of ''{"tool_calls": [1]}'')]
     = ([Logged PluginStarted, Logged (RawInput (str ''{"tool_calls": [1]}''))],
        Crashed AttributeError, 0)\<close>
proof (intro conjI)
  let ?api = "\<lambda>(w::nat) (p::json). (RequestException, w)"
  let ?l1 = "\<lambda>t. if t = str ''[]'' then Decoded (JArr []) else JSONDecodeError"
  have d1: "map unat (bytes_of ''[]'') = str ''[]''"
    by (simp add: bytes_of_def str_def)
  have "read_command ?l1 [ReadOk (bytes_of ''[]'')] = (Some (JArr []), [RawInput (str ''[]'')], [])"
    using read_command_ascii [of "bytes_of ''[]''" ?l1 "JArr []" "[]"] unfolding d1
    by (simp add: bytes_of_def BUFFER_SIZE_def)
  moreover have "process_command ?api 0 (JArr []) = ([], Crashed AttributeError, 0)"
    by (simp add: process_command_def)
  ultimately have "main ?l1 ?api 0 [ReadOk (bytes_of ''[]'')]
      = (Logged PluginStarted # map Logged [RawInput (str ''[]'')], Crashed AttributeError, 0)"
    by (intro main_crash) simp_all
  then show "main ?l1 ?api 0 [ReadOk (bytes_of ''[]'')]
     = ([Logged PluginStarted, Logged (RawInput (str ''[]''))], Crashed AttributeError, 0)"
    by simp
next
  let ?api = "\<lambda>(w::nat) (p::json). (RequestException, w)"
  let ?l2 = \<open>\<lambda>t. if t = str ''{"tool_calls": 5}''
                 then Decoded (JObj [(str ''tool_calls'', JInt 5)]) else JSONDecodeError\<close>
  let ?c2 = "JObj [(str ''tool_calls'', JInt 5)]"
  have d2: \<open>map unat (bytes_of ''{"tool_calls": 5}'') = str ''{"tool_calls": 5}''\<close>
    by (simp add: bytes_of_def str_def)
  have \<open>read_command ?l2 [ReadOk (bytes_of ''{"tool_calls": 5}'')]
      = (Some ?c2, [RawInput (str ''{"tool_calls": 5}'')], [])\<close>
    using read_command_ascii [of \<open>bytes_of ''{"tool_calls": 5}''\<close> ?l2 ?c2 "[]"] unfolding d2
    by (simp add: bytes_of_def BUFFER_SIZE_def)
  moreover have "process_command ?api 0 ?c2 = ([], Crashed TypeError, 0)"
    by (simp add: process_command_def dict_get_def)
  ultimately have \<open>main ?l2 ?api 0 [ReadOk (bytes_of ''{"tool_calls": 5}'')]
      = (Logged PluginStarted # map Logged [RawInput (str ''{"tool_calls": 5}'')],
         Crashed TypeError, 0)\<close>
    by (intro main_crash) simp_all
  then show \<open>main ?l2 ?api 0 [ReadOk (bytes_of ''{"tool_calls": 5}'')]
     = ([Logged PluginStarted, Logged (RawInput (str ''{"tool_calls": 5}''))],
        Crashed TypeError, 0)\<close>
    by simp
next
  let ?api = "\<lambda>(w::nat) (p::json). (RequestException, w)"
  let ?l3 = \<open>\<lambda>t. if t = str ''{"tool_calls": [1]}''
                 then Decoded (JObj [(str ''tool_calls'', JArr [JInt 1])]) else JSONDecodeError\<close>
  let ?c3 = "JObj [(str ''tool_calls'', JArr [JInt 1])]"
  have d3: \<open>map unat (bytes_of ''{"tool_calls": [1]}'') = str ''{"tool_calls": [1]}''\<close>
    by (simp add: bytes_of_def str_def)
  have \<open>read_command ?l3 [ReadOk (bytes_of ''{"tool_calls": [1]}'')]
      = (Some ?c3, [RawInput (str ''{"tool_calls": [1]}'')], [])\<close>
    using read_command_ascii [of \<open>bytes_of ''{"tool_calls": [1]}''\<close> ?l3 ?c3 "[]"] unfolding d3
    by (simp add: bytes_of_def BUFFER_SIZE_def)
  moreover have "process_command ?api 0 ?c3 = ([], Crashed AttributeError, 0)"
    by (simp add: process_command_def dict_get_def dispatch_def)
  ultimately have \<open>main ?l3 ?api 0 [ReadOk (bytes_of ''{"tool_calls": [1]}'')]
      = (Logged PluginStarted # map Logged [RawInput (str ''{"tool_calls": [1]}'')],
         Crashed AttributeError, 0)\<close>
    by (intro main_crash) simp_all
  then show \<open>main ?l3 ?api 0 [ReadOk (bytes_of ''{"tool_calls": [1]}'')]
     = ([Logged PluginStarted, Logged (RawInput (str ''{"tool_calls": [1]}''))],
        Crashed AttributeError, 0)\<close>
    by simp
qed

text \<open>
  C1, at a command of two invocations, \<^verbatim>\<open>describe_screen\<close> with a prompt and then
  \<^verbatim>\<open>initialize\<close>, neither of them \<^verbatim>\<open>shutdown\<close>, when the screen query raises an
  exception that is no \<^verbatim>\<open>requests.RequestException\<close> (the reply of the service has
  no \<^verbatim>\<open>output\<close> key, say). The exception leaves \<^verbatim>\<open>describe_screen\<close> and \<^verbatim>\<open>main\<close>:
  no frame is written for either invocation.
\<close>

theorem C1_handler_exception_drops_frames:
  \<open>well_formed_invocation
       (JObj [(str ''func'', JStr (str ''describe_screen'')),
              (str ''params'', JObj [(str ''prompt'', JStr (str ''what is this''))])])
   \<and> \<not> is_shutdown
       (JObj [(str ''func'', JStr (str ''describe_screen'')),
              (str ''params'', JObj [(str ''prompt'', JStr (str ''what is this''))])])
   \<and> well_formed_invocation
       (JObj [(str ''func'', JStr (str ''initialize'')), (str ''params'', JObj [])])
   \<and> \<not> is_shutdown
       (JObj [(str ''func'', JStr (str ''initialize'')), (str ''params'', JObj [])])
   \<and> process_command (\<lambda>w p. (OtherException, w)) (0::nat)
        (JObj [(str ''tool_calls'',
                JArr [JObj [(str ''func'', JStr (str ''describe_screen'')),
                            (str ''params'', JObj [(str ''prompt'', JStr (str ''what is this''))])],
                      JObj [(str ''func'', JStr (str ''initialize'')), (str ''params'', JObj [])]])])
      = ([], Crashed HandlerException, 0)
   \<and> main (\<lambda>t. if t = str ''{"tool_calls": [{"func": "describe_screen", "params": {"prompt": "what is this"}}, {"func": "initialize", "params": {}}]}''
                 then Decoded (JObj [(str ''tool_calls'',
                   JArr [JObj [(str ''func'', JStr (str ''describe_screen'')),
                               (str ''params'', JObj [(str ''prompt'', JStr (str ''what is this''))])],
                         JObj [(str ''func'', JStr (str ''initialize'')), (str ''params'', JObj [])]])])
                 else JSONDecodeError)
        (\<lambda>w p. (OtherException, w)) (0::nat)
        [ReadOk (bytes_of ''{"tool_calls": [{"func": "describe_screen", "params": {"prompt": "what is this"}}, {"func": "initialize", "params": {}}]}'')]
      = ([Logged PluginStarted,
          Logged (RawInput (str ''{"tool_calls": [{"func": "describe_screen", "params": {"prompt": "what is this"}}, {"func": "initialize", "params": {}}]}''))],
         Crashed HandlerException, 0)\<close>
proof (intro conjI)
  let ?calls = "[JObj [(str ''func'', JStr (str ''describe_screen'')),
                       (str ''params'', JObj [(str ''prompt'', JStr (str ''what is this''))])],
                 JObj [(str ''func'', JStr (str ''initialize'')), (str ''params'', JObj [])]]"
  let ?command = "JObj [(str ''tool_calls'', JArr ?calls)]"
  let ?api = "\<lambda>(w::nat) (p::json). (OtherException, w)"
  let ?text = \<open>''{"tool_calls": [{"func": "describe_screen", "params": {"prompt": "what is this"}}, {"func": "initialize", "params": {}}]}''\<close>
  let ?loads = "\<lambda>t. if t = str ?text then Decoded ?command else JSONDecodeError"
  show "well_formed_invocation
       (JObj [(str ''func'', JStr (str ''describe_screen'')),
              (str ''params'', JObj [(str ''prompt'', JStr (str ''what is this''))])])"
    by (simp add: well_formed_invocation_def str_def)
  show "\<not> is_shutdown
       (JObj [(str ''func'', JStr (str ''describe_screen'')),
              (str ''params'', JObj [(str ''prompt'', JStr (str ''what is this''))])])"
    by (simp add: is_shutdown_def dict_get_def str_def)
  show "well_formed_invocation
       (JObj [(str ''func'', JStr (str ''initialize'')), (str ''params'', JObj [])])"
    by (simp add: well_formed_invocation_def str_def)
  show "\<not> is_shutdown
       (JObj [(str ''func'', JStr (str ''initialize'')), (str ''params'', JObj [])])"
    by (simp add: is_shutdown_def dict_get_def str_def)
  show pc: "process_command ?api 0 ?command = ([], Crashed HandlerException, 0)"
    by (simp add: process_command_def dict_get_def dispatch_def describe_screen_def Let_def str_def)
  have d: "map unat (bytes_of ?text) = str ?text"
    by (simp add: bytes_of_def str_def)
  have rc: "read_command ?loads [ReadOk (bytes_of ?text)]
      = (Some ?command, [RawInput (str ?text)], [])"
    using read_command_ascii [of "bytes_of ?text" ?loads ?command "[]"] unfolding d
    by (simp add: bytes_of_def BUFFER_SIZE_def)
  have "main ?loads ?api 0 [ReadOk (bytes_of ?text)]
      = (Logged PluginStarted # map Logged [RawInput (str ?text)], Crashed HandlerException, 0)"
    using rc _ pc by (rule main_crash) simp
  then show "main ?loads ?api 0 [ReadOk (bytes_of ?text)]
      = ([Logged PluginStarted, Logged (RawInput (str ?text))], Crashed HandlerException, 0)"
    by simp
qed

text \<open>
  C8, for the messages that can be read back. For every Result whose message, when
  it has one, is a text of code points with no high surrogate directly before a
  low surrogate,
  \<^verbatim>\<open>write_response\<close> writes one frame, and decoding that frame gives the Result
  back.
\<close>

theorem C8_round_trip:
  assumes "case message r of None \<Rightarrow> True | Some m \<Rightarrow> round_trip_text m"
  shows "\<exists>fr. write_response r = [Wrote fr] \<and> decode_frame fr = Some r"
proof -
  let ?fr = "map of_nat (json_dumps r @ str ''<<END>>'') :: byte list"
  have w: "write_response r = [Wrote ?fr]"
    by (rule write_response_writes)
  have "decode_frame ?fr = Some r"
    unfolding decode_frame_def strip_terminator_frame
    using utf8_decode_of_ascii [OF json_dumps_ascii, of r]
      parse_object_json_dumps [OF assms] result_of_json_response [of r]
    by simp
  with w show ?thesis
    by blast
qed

theorem C8_round_trip_witness:
  "(case message \<lparr>success = True, message = Some [0x61, 0x22, 0xE9, 0x1F600, 0x0A, 0xD83D]\<rparr> of
      None \<Rightarrow> True | Some m \<Rightarrow> round_trip_text m)
   \<and> (\<exists>fr. write_response \<lparr>success = True, message = Some [0x61, 0x22, 0xE9, 0x1F600, 0x0A, 0xD83D]\<rparr>
           = [Wrote fr]
         \<and> decode_frame fr
           = Some \<lparr>success = True, message = Some [0x61, 0x22, 0xE9, 0x1F600, 0x0A, 0xD83D]\<rparr>)
   \<and> (case message \<lparr>success = False, message = None\<rparr> of
      None \<Rightarrow> True | Some m \<Rightarrow> round_trip_text m)
   \<and> (\<exists>fr. write_response \<lparr>success = False, message = None\<rparr> = [Wrote fr]
         \<and> decode_frame fr = Some \<lparr>success = False, message = None\<rparr>)"
proof -
  let ?r = "\<lparr>success = True, message = Some [0x61, 0x22, 0xE9, 0x1F600, 0x0A, 0xD83D]\<rparr>"
  let ?q = "\<lparr>success = False, message = None\<rparr>"
  have h: "case message ?r of None \<Rightarrow> True | Some m \<Rightarrow> round_trip_text m"
    by (simp add: round_trip_text_def high_surrogate_def low_surrogate_def)
  have k: "case message ?q of None \<Rightarrow> True | Some m \<Rightarrow> round_trip_text m"
    by simp
  from h C8_round_trip [OF h] k C8_round_trip [OF k] show ?thesis
    by (intro conjI)
qed

text \<open>
  For every Result it does not hold: the frame of the Result whose message is the
  two code points U+D83D and U+DE00 is read back as the Result whose message is the
  one code point U+1F600.
\<close>

theorem C8_split_pair_counterexample:
  \<open>write_response \<lparr>success = True, message = Some [0xD83D, 0xDE00]\<rparr>
     = [Wrote (bytes_of (''{"success": true, "message": "'' @ [CHR 0x5C] @ ''ud83d''
                          @ [CHR 0x5C] @ ''ude00"}<<END>>''))]
   \<and> decode_frame (bytes_of (''{"success": true, "message": "'' @ [CHR 0x5C] @ ''ud83d''
                          @ [CHR 0x5C] @ ''ude00"}<<END>>''))
     = Some \<lparr>success = True, message = Some [0x1F600]\<rparr>
   \<and> decode_frame (bytes_of (''{"success": true, "message": "'' @ [CHR 0x5C] @ ''ud83d''
                          @ [CHR 0x5C] @ ''ude00"}<<END>>''))
     \<noteq> Some \<lparr>success = True, message = Some [0xD83D, 0xDE00]\<rparr>\<close>
proof -
  let ?r = "\<lparr>success = True, message = Some [0xD83D, 0xDE00]\<rparr>"
  have fr: \<open>map of_nat (json_dumps ?r @ str ''<<END>>'')
     = bytes_of (''{"success": true, "message": "'' @ [CHR 0x5C] @ ''ud83d''
                          @ [CHR 0x5C] @ ''ude00"}<<END>>'')\<close>
    by (simp add: json_dumps_def encode_basestring_ascii_def replace_def u_escape_def hex4_def
        hexdigit_def str_def bytes_of_def)
  have w: "write_response ?r = [Wrote (map of_nat (json_dumps ?r @ str ''<<END>>''))]"
    by (rule write_response_writes)
  have d: "decode_frame (map of_nat (json_dumps ?r @ str ''<<END>>''))
     = Some \<lparr>success = True, message = Some [0x1F600]\<rparr>"
    by (rule split_pair_not_read_back)
  from w d show ?thesis
    unfolding fr by simp
qed

end
